theory Spec2Isabelle
  imports Main
begin

section \<open>The info\_config.h generator of \<open>lib/python/qmk/cli/generate/config_h.py\<close>\<close>

text \<open>
  The command \<open>qmk generate-config-h\<close> turns the merged \<open>info.json\<close> of a keyboard into the
  text of a C header.  Every function of the source file is embedded below under its own
  name; Python strings are \<open>string\<close> (lists of characters), the line feed is \<open>CHR 0x0A\<close>,
  and a Python exception is a value of a sum type.
\<close>

subsection \<open>Python primitives used by the source\<close>

abbreviation nl :: string where
  "nl \<equiv> [CHR 0x0A]"

text \<open>\<open>sep.join(xs)\<close>.\<close>

fun str_join :: "string \<Rightarrow> string list \<Rightarrow> string" where
  "str_join sep [] = []"
| "str_join sep [x] = x"
| "str_join sep (x # y # ys) = x @ sep @ str_join sep (y # ys)"

text \<open>\<open>str(n)\<close> for a non-negative integer such as the result of \<open>len\<close>: its decimal digits.\<close>

definition digit_char :: "nat \<Rightarrow> char" where
  "digit_char d = ''0123456789'' ! d"

fun str_nat :: "nat \<Rightarrow> string" where
  "str_nat n = (if n < 10 then [digit_char n] else str_nat (n div 10) @ [digit_char (n mod 10)])"

declare str_nat.simps [simp del]

text \<open>
  A leaf of the \<open>usb\<close> sub-record is a string or an integer literal; \<open>'%s' % v\<close> renders a
  string as itself and an integer in decimal, with a minus sign when negative.
\<close>

datatype scalar = SStr string | SInt int

fun str_scalar :: "scalar \<Rightarrow> string" where
  "str_scalar (SStr s) = s"
| "str_scalar (SInt i) = (if i < 0 then ''-'' @ str_nat (nat (- i)) else str_nat (nat i))"

datatype py_error = IndexError

subsection \<open>The configuration record\<close>

text \<open>
  \<open>kb_info_json\<close> is a dictionary in which every key is optional.  The source only tests
  membership (\<open>'k' in d\<close>) and reads by key (\<open>d['k']\<close>), so a dictionary with keys of different
  value types is a record of optional fields, and the \<open>usb\<close> dictionary, which the source reads
  with keys taken from \<open>usb_properties\<close>, is a map.  A cell of the direct matrix is a pin name,
  the empty string or \<open>null\<close>.
\<close>

record matrix_pins_json =
  mp_direct :: "string option list list option"
  mp_cols :: "string list option"
  mp_rows :: "string list option"

record kb_info_json =
  kb_diode_direction :: "string option"
  kb_keyboard_name :: "string option"
  kb_manufacturer :: "string option"
  kb_matrix_pins :: "matrix_pins_json option"
  kb_usb :: "(string \<rightharpoonup> scalar) option"

subsection \<open>The template functions\<close>

text \<open>The module constant \<open>usb_properties\<close>; a dictionary literal iterates in the order written.\<close>

definition usb_properties :: "(string \<times> string) list" where
  "usb_properties =
     [(''vid'', ''VENDOR_ID''),
      (''pid'', ''PRODUCT_ID''),
      (''device_ver'', ''DEVICE_VER'')]"

text \<open>Each template is a triple-quoted literal that begins and ends with a line feed.\<close>

definition diode_direction :: "string \<Rightarrow> string" where
  "diode_direction v =
     nl @ ''#ifndef DIODE_DIRECTION'' @
     nl @ ''#   define DIODE_DIRECTION '' @ v @
     nl @ ''#endif // DIODE_DIRECTION'' @
     nl"

definition keyboard_name :: "string \<Rightarrow> string" where
  "keyboard_name v =
     nl @ ''#ifndef DESCRIPTION'' @
     nl @ ''#    define DESCRIPTION '' @ v @
     nl @ ''#endif // DESCRIPTION'' @
     nl @
     nl @ ''#ifndef PRODUCT'' @
     nl @ ''#    define PRODUCT '' @ v @
     nl @ ''#endif // PRODUCT'' @
     nl"

definition manufacturer :: "string \<Rightarrow> string" where
  "manufacturer v =
     nl @ ''#ifndef MANUFACTURER'' @
     nl @ ''#    define MANUFACTURER '' @ v @
     nl @ ''#endif // MANUFACTURER'' @
     nl"

text \<open>\<open>col or 'NO_PIN'\<close>: \<open>None\<close> and the empty string are both falsy.\<close>

fun pin_or_no_pin :: "string option \<Rightarrow> string" where
  "pin_or_no_pin None = ''NO_PIN''"
| "pin_or_no_pin (Some s) = (if s = [] then ''NO_PIN'' else s)"

text \<open>The loop \<open>for row in direct_pins\<close>, appending one rendered row to \<open>rows\<close> at each turn.\<close>

fun direct_pins_loop :: "string option list list \<Rightarrow> string list \<Rightarrow> string list" where
  "direct_pins_loop [] rows = rows"
| "direct_pins_loop (row # rest) rows =
     direct_pins_loop rest (rows @ [''{'' @ str_join '','' (map pin_or_no_pin row) @ ''}''])"

text \<open>\<open>direct_pins[0]\<close> raises \<open>IndexError\<close> on an empty list.\<close>

definition direct_pins :: "string option list list \<Rightarrow> py_error + string" where
  "direct_pins dp =
     (let rows = direct_pins_loop dp [] in
      case dp of
        [] \<Rightarrow> Inl IndexError
      | first # _ \<Rightarrow>
          let col_count = length first;
              row_count = length dp
          in Inr (
            nl @ ''#ifndef MATRIX_COLS'' @
            nl @ ''#    define MATRIX_COLS '' @ str_nat col_count @
            nl @ ''#endif // MATRIX_COLS'' @
            nl @
            nl @ ''#ifndef MATRIX_ROWS'' @
            nl @ ''#    define MATRIX_ROWS '' @ str_nat row_count @
            nl @ ''#endif // MATRIX_ROWS'' @
            nl @
            nl @ ''#ifndef DIRECT_PINS'' @
            nl @ ''#    define DIRECT_PINS {'' @ str_join '','' rows @ ''}'' @
            nl @ ''#endif // DIRECT_PINS'' @
            nl))"

definition col_pins :: "string list \<Rightarrow> string" where
  "col_pins cp =
     (let cols = str_join '','' cp;
          col_num = length cp
      in
        nl @ ''#ifndef MATRIX_COLS'' @
        nl @ ''#    define MATRIX_COLS '' @ str_nat col_num @
        nl @ ''#endif // MATRIX_COLS'' @
        nl @
        nl @ ''#ifndef MATRIX_COL_PINS'' @
        nl @ ''#    define MATRIX_COL_PINS {'' @ cols @ ''}'' @
        nl @ ''#endif // MATRIX_COL_PINS'' @
        nl)"

definition row_pins :: "string list \<Rightarrow> string" where
  "row_pins rp =
     (let rows = str_join '','' rp;
          row_num = length rp
      in
        nl @ ''#ifndef MATRIX_ROWS'' @
        nl @ ''#    define MATRIX_ROWS '' @ str_nat row_num @
        nl @ ''#endif // MATRIX_ROWS'' @
        nl @
        nl @ ''#ifndef MATRIX_ROW_PINS'' @
        nl @ ''#    define MATRIX_ROW_PINS {'' @ rows @ ''}'' @
        nl @ ''#endif // MATRIX_ROW_PINS'' @
        nl)"

subsection \<open>Building the header\<close>

text \<open>The first element of \<open>config_h_lines\<close>: two adjacent literals, concatenated.\<close>

definition generated_comment :: string where
  "generated_comment =
     ''/* This file was generated by `qmk generate-config-h`. Do not edit or copy.'' @ '' */''"

text \<open>The statements under \<open>if 'matrix_pins' in kb_info_json\<close>, threading \<open>config_h_lines\<close>.\<close>

definition append_matrix_pins :: "matrix_pins_json \<Rightarrow> string list \<Rightarrow> py_error + string list" where
  "append_matrix_pins mp config_h_lines =
     (case (case mp_direct mp of
              None \<Rightarrow> Inr config_h_lines
            | Some d \<Rightarrow>
                (case direct_pins d of
                   Inl e \<Rightarrow> Inl e
                 | Inr text \<Rightarrow> Inr (config_h_lines @ [text]))) of
        Inl e \<Rightarrow> Inl e
      | Inr lines1 \<Rightarrow>
          let lines2 = (case mp_cols mp of None \<Rightarrow> lines1 | Some c \<Rightarrow> lines1 @ [col_pins c]);
              lines3 = (case mp_rows mp of None \<Rightarrow> lines2 | Some r \<Rightarrow> lines2 @ [row_pins r])
          in Inr lines3)"

text \<open>The loop \<open>for info_name, config_name in usb_properties.items()\<close>.\<close>

fun append_usb :: "(string \<times> string) list \<Rightarrow> (string \<rightharpoonup> scalar) \<Rightarrow> string list \<Rightarrow> string list" where
  "append_usb [] usb config_h_lines = config_h_lines"
| "append_usb ((info_name, config_name) # props) usb config_h_lines =
     append_usb props usb
       (case usb info_name of
          None \<Rightarrow> config_h_lines
        | Some v \<Rightarrow>
            config_h_lines @
              ['''',
               ''#ifndef '' @ config_name,
               ''#    define '' @ config_name @ '' '' @ str_scalar v,
               ''#endif // '' @ config_name])"

text \<open>
  Lines 134 to 164 of the source: from the resolved \<open>kb_info_json\<close> to the text \<open>config_h\<close>,
  or to the exception that leaves the function.
\<close>

definition config_h :: "kb_info_json \<Rightarrow> py_error + string" where
  "config_h kb =
     (let lines0 = [generated_comment, '''', ''#pragma once''];
          lines1 = (case kb_diode_direction kb of
                      None \<Rightarrow> lines0 | Some v \<Rightarrow> lines0 @ [diode_direction v]);
          lines2 = (case kb_keyboard_name kb of
                      None \<Rightarrow> lines1 | Some v \<Rightarrow> lines1 @ [keyboard_name v]);
          lines3 = (case kb_manufacturer kb of
                      None \<Rightarrow> lines2 | Some v \<Rightarrow> lines2 @ [manufacturer v])
      in
        case (case kb_matrix_pins kb of
                None \<Rightarrow> Inr lines3
              | Some mp \<Rightarrow> append_matrix_pins mp lines3) of
          Inl e \<Rightarrow> Inl e
        | Inr lines4 \<Rightarrow>
            let lines5 = (case kb_usb kb of
                            None \<Rightarrow> lines4 | Some u \<Rightarrow> append_usb usb_properties u lines4)
            in Inr (str_join nl lines5))"

text \<open>
  The command itself.  Its collaborators enter as values: \<open>keyboard\<close> is
  \<open>cli.config.generate_config_h.keyboard\<close>, \<open>known\<close> the answer of \<open>is_keyboard\<close> for it and
  \<open>kb\<close> the answer of \<open>info_json\<close>.  An error that the command logs before it returns
  \<open>False\<close> is \<open>Reported\<close>; an exception that escapes is \<open>Raised\<close>; otherwise the text is handed
  to the file or to standard output.
\<close>

datatype report = Missing_keyboard | Invalid_keyboard string

datatype outcome = Reported report | Raised py_error | Emitted string

definition generate_config_h :: "string option \<Rightarrow> bool \<Rightarrow> kb_info_json \<Rightarrow> outcome" where
  "generate_config_h keyboard known kb =
     (case keyboard of
        None \<Rightarrow> Reported Missing_keyboard
      | Some k \<Rightarrow>
          if k = [] then Reported Missing_keyboard
          else if \<not> known then Reported (Invalid_keyboard k)
          else (case config_h kb of
                  Inl e \<Rightarrow> Raised e
                | Inr text \<Rightarrow> Emitted text))"

subsection \<open>Fields and their blocks\<close>

text \<open>
  The optional fields of the record, containers included, and for each the fragments that
  the templates above give it.  \<open>field_order\<close> lists the fields that own a macro block.
\<close>

datatype field =
  Diode_direction | Keyboard_name | Manufacturer
  | Matrix_pins | Direct | Cols | Rows
  | Usb | Vid | Pid | Device_ver

definition field_order :: "field list" where
  "field_order =
     [Diode_direction, Keyboard_name, Manufacturer, Direct, Cols, Rows, Vid, Pid, Device_ver]"

fun leaves :: "field \<Rightarrow> field list" where
  "leaves Matrix_pins = [Direct, Cols, Rows]"
| "leaves Usb = [Vid, Pid, Device_ver]"
| "leaves f = [f]"

definition usb_entry :: "(string \<rightharpoonup> scalar) \<Rightarrow> string \<times> string \<Rightarrow> string list" where
  "usb_entry u p =
     (case u (fst p) of
        None \<Rightarrow> []
      | Some v \<Rightarrow>
          ['''',
           ''#ifndef '' @ snd p,
           ''#    define '' @ snd p @ '' '' @ str_scalar v,
           ''#endif // '' @ snd p])"

definition usb_block :: "kb_info_json \<Rightarrow> string \<times> string \<Rightarrow> string list" where
  "usb_block kb p = (case kb_usb kb of None \<Rightarrow> [] | Some u \<Rightarrow> usb_entry u p)"

definition direct_block :: "kb_info_json \<Rightarrow> string list" where
  "direct_block kb =
     (case kb_matrix_pins kb of
        None \<Rightarrow> []
      | Some mp \<Rightarrow>
          (case mp_direct mp of
             None \<Rightarrow> []
           | Some d \<Rightarrow> (case direct_pins d of Inl e \<Rightarrow> [] | Inr t \<Rightarrow> [t])))"

definition cols_block :: "kb_info_json \<Rightarrow> string list" where
  "cols_block kb =
     (case kb_matrix_pins kb of
        None \<Rightarrow> []
      | Some mp \<Rightarrow> (case mp_cols mp of None \<Rightarrow> [] | Some c \<Rightarrow> [col_pins c]))"

definition rows_block :: "kb_info_json \<Rightarrow> string list" where
  "rows_block kb =
     (case kb_matrix_pins kb of
        None \<Rightarrow> []
      | Some mp \<Rightarrow> (case mp_rows mp of None \<Rightarrow> [] | Some r \<Rightarrow> [row_pins r]))"

fun block :: "kb_info_json \<Rightarrow> field \<Rightarrow> string list" where
  "block kb Diode_direction =
     (case kb_diode_direction kb of None \<Rightarrow> [] | Some v \<Rightarrow> [diode_direction v])"
| "block kb Keyboard_name =
     (case kb_keyboard_name kb of None \<Rightarrow> [] | Some v \<Rightarrow> [keyboard_name v])"
| "block kb Manufacturer =
     (case kb_manufacturer kb of None \<Rightarrow> [] | Some v \<Rightarrow> [manufacturer v])"
| "block kb Direct = direct_block kb"
| "block kb Cols = cols_block kb"
| "block kb Rows = rows_block kb"
| "block kb Vid = usb_block kb (''vid'', ''VENDOR_ID'')"
| "block kb Pid = usb_block kb (''pid'', ''PRODUCT_ID'')"
| "block kb Device_ver = usb_block kb (''device_ver'', ''DEVICE_VER'')"
| "block kb Matrix_pins = direct_block kb @ cols_block kb @ rows_block kb"
| "block kb Usb =
     usb_block kb (''vid'', ''VENDOR_ID'') @ usb_block kb (''pid'', ''PRODUCT_ID'') @
     usb_block kb (''device_ver'', ''DEVICE_VER'')"

definition header_lines :: "string list" where
  "header_lines = [generated_comment, '''', ''#pragma once'']"

text \<open>The record with one field taken out; a sub-field leaves its container in place.\<close>

fun remove_field :: "field \<Rightarrow> kb_info_json \<Rightarrow> kb_info_json" where
  "remove_field Diode_direction kb = kb\<lparr>kb_diode_direction := None\<rparr>"
| "remove_field Keyboard_name kb = kb\<lparr>kb_keyboard_name := None\<rparr>"
| "remove_field Manufacturer kb = kb\<lparr>kb_manufacturer := None\<rparr>"
| "remove_field Matrix_pins kb = kb\<lparr>kb_matrix_pins := None\<rparr>"
| "remove_field Direct kb =
     kb\<lparr>kb_matrix_pins := map_option (\<lambda>mp. mp\<lparr>mp_direct := None\<rparr>) (kb_matrix_pins kb)\<rparr>"
| "remove_field Cols kb =
     kb\<lparr>kb_matrix_pins := map_option (\<lambda>mp. mp\<lparr>mp_cols := None\<rparr>) (kb_matrix_pins kb)\<rparr>"
| "remove_field Rows kb =
     kb\<lparr>kb_matrix_pins := map_option (\<lambda>mp. mp\<lparr>mp_rows := None\<rparr>) (kb_matrix_pins kb)\<rparr>"
| "remove_field Usb kb = kb\<lparr>kb_usb := None\<rparr>"
| "remove_field Vid kb = kb\<lparr>kb_usb := map_option (\<lambda>u. u(''vid'' := None)) (kb_usb kb)\<rparr>"
| "remove_field Pid kb = kb\<lparr>kb_usb := map_option (\<lambda>u. u(''pid'' := None)) (kb_usb kb)\<rparr>"
| "remove_field Device_ver kb =
     kb\<lparr>kb_usb := map_option (\<lambda>u. u(''device_ver'' := None)) (kb_usb kb)\<rparr>"

text \<open>The one shape on which \<open>direct_pins\<close> raises: \<open>direct\<close> present with no row.\<close>

definition direct_empty :: "kb_info_json \<Rightarrow> bool" where
  "direct_empty kb =
     (case kb_matrix_pins kb of
        None \<Rightarrow> False
      | Some mp \<Rightarrow> mp_direct mp = Some [])"

text \<open>The guard triple of a macro, as the matrix and USB templates lay it out.\<close>

definition macro_guard :: "string \<Rightarrow> string \<Rightarrow> string" where
  "macro_guard name v =
     ''#ifndef '' @ name @
     nl @ ''#    define '' @ name @ '' '' @ v @
     nl @ ''#endif // '' @ name"

subsection \<open>Reading the generated text line by line\<close>

text \<open>The lines of a text, cut at each line feed; the empty text has one empty line.\<close>

fun split_lines :: "string \<Rightarrow> string list" where
  "split_lines [] = [[]]"
| "split_lines (c # cs) =
     (if c = CHR 0x0A then [] # split_lines cs
      else (case split_lines cs of [] \<Rightarrow> [[c]] | l # ls \<Rightarrow> (c # l) # ls))"

text \<open>
  A preprocessor line is \<open>#\<close>, possibly indented, followed by the directive name, possibly
  indented again.  A \<open>#define\<close> line is one whose directive text starts with \<open>define\<close>; the
  macro it names is the next word.
\<close>

definition blank :: "char \<Rightarrow> bool" where
  "blank c \<longleftrightarrow> c = CHR '' '' \<or> c = CHR 0x09"

definition directive :: "string \<Rightarrow> string" where
  "directive l =
     (case dropWhile blank l of
        [] \<Rightarrow> []
      | c # cs \<Rightarrow> if c = CHR ''#'' then dropWhile blank cs else [])"

definition is_define :: "string \<Rightarrow> bool" where
  "is_define l \<longleftrightarrow> take 6 (directive l) = ''define''"

definition macro_name :: "string \<Rightarrow> string" where
  "macro_name l = takeWhile (\<lambda>c. \<not> blank c) (dropWhile blank (drop 6 (directive l)))"

definition guard_at :: "string list \<Rightarrow> nat \<Rightarrow> bool" where
  "guard_at ls i \<longleftrightarrow>
     0 < i \<and> ls ! (i - 1) = ''#ifndef '' @ macro_name (ls ! i) \<and>
     Suc i < length ls \<and> ls ! Suc i = ''#endif // '' @ macro_name (ls ! i)"

definition guarded :: "string list \<Rightarrow> bool" where
  "guarded ls \<longleftrightarrow> (\<forall>i < length ls. is_define (ls ! i) \<longrightarrow> guard_at ls i)"

text \<open>The strings that the generator substitutes into its templates, and those without a line feed.\<close>

definition one_line :: "string \<Rightarrow> bool" where
  "one_line s \<longleftrightarrow> CHR 0x0A \<notin> set s"

definition substituted :: "kb_info_json \<Rightarrow> string list" where
  "substituted kb =
     (case kb_diode_direction kb of None \<Rightarrow> [] | Some v \<Rightarrow> [v]) @
     (case kb_keyboard_name kb of None \<Rightarrow> [] | Some v \<Rightarrow> [v]) @
     (case kb_manufacturer kb of None \<Rightarrow> [] | Some v \<Rightarrow> [v]) @
     (case kb_matrix_pins kb of
        None \<Rightarrow> []
      | Some mp \<Rightarrow>
          (case mp_direct mp of None \<Rightarrow> [] | Some d \<Rightarrow> concat (map (map pin_or_no_pin) d)) @
          (case mp_cols mp of None \<Rightarrow> [] | Some c \<Rightarrow> c) @
          (case mp_rows mp of None \<Rightarrow> [] | Some r \<Rightarrow> r)) @
     (case kb_usb kb of
        None \<Rightarrow> []
      | Some u \<Rightarrow>
          concat (map (\<lambda>p. case u (fst p) of None \<Rightarrow> [] | Some v \<Rightarrow> [str_scalar v])
            usb_properties))"

subsection \<open>Sample records\<close>

definition no_fields :: kb_info_json where
  "no_fields =
     \<lparr>kb_diode_direction = None, kb_keyboard_name = None, kb_manufacturer = None,
      kb_matrix_pins = None, kb_usb = None\<rparr>"

definition no_pins :: matrix_pins_json where
  "no_pins = \<lparr>mp_direct = None, mp_cols = None, mp_rows = None\<rparr>"

definition scenario_B :: kb_info_json where
  "scenario_B =
     no_fields\<lparr>kb_matrix_pins :=
       Some (no_pins\<lparr>mp_cols := Some [''A0'', ''A1''], mp_rows := Some [''B0'']\<rparr>)\<rparr>"

definition scenario_C :: kb_info_json where
  "scenario_C =
     no_fields\<lparr>kb_matrix_pins :=
       Some (no_pins\<lparr>mp_direct :=
         Some [[Some ''A0'', Some ''A1''], [Some '''', Some ''B1'']]\<rparr>)\<rparr>"

definition empty_direct :: kb_info_json where
  "empty_direct = no_fields\<lparr>kb_matrix_pins := Some (no_pins\<lparr>mp_direct := Some []\<rparr>)\<rparr>"

definition direct_and_scanned :: kb_info_json where
  "direct_and_scanned =
     no_fields\<lparr>kb_matrix_pins :=
       Some \<lparr>mp_direct = Some [[Some ''A0'', None, Some ''A2'']],
             mp_cols = Some [''B0'', ''B1''],
             mp_rows = Some [''C0'', ''C1'']\<rparr>\<rparr>"

definition acme :: kb_info_json where
  "acme = no_fields\<lparr>kb_manufacturer := Some ''Acme''\<rparr>"

definition two_lines :: kb_info_json where
  "two_lines = no_fields\<lparr>kb_manufacturer := Some (''Acme'' @ nl @ ''#define X 1'')\<rparr>"

definition two_lines_out :: "string list" where
  "two_lines_out =
     [generated_comment, '''', ''#pragma once'', '''',
      ''#ifndef MANUFACTURER'',
      ''#    define MANUFACTURER Acme'',
      ''#define X 1'',
      ''#endif // MANUFACTURER'', '''']"

definition all_fields :: kb_info_json where
  "all_fields =
     \<lparr>kb_diode_direction = Some ''COL2ROW'',
      kb_keyboard_name = Some ''Clueboard'',
      kb_manufacturer = Some ''Acme'',
      kb_matrix_pins = Some (no_pins\<lparr>mp_cols := Some [''A0'', ''A1''], mp_rows := Some [''B0'']\<rparr>),
      kb_usb = Some [''vid'' \<mapsto> SStr ''0x1234'', ''device_ver'' \<mapsto> SInt 1]\<rparr>"

definition all_fields_head :: "string list" where
  "all_fields_head =
     [generated_comment, '''', ''#pragma once'',
      '''',
      ''#ifndef DIODE_DIRECTION'',
      ''#   define DIODE_DIRECTION COL2ROW'',
      ''#endif // DIODE_DIRECTION'',
      '''']"

definition all_fields_name :: "string list" where
  "all_fields_name =
     ['''',
      ''#ifndef DESCRIPTION'',
      ''#    define DESCRIPTION Clueboard'',
      ''#endif // DESCRIPTION'',
      '''',
      ''#ifndef PRODUCT'',
      ''#    define PRODUCT Clueboard'',
      ''#endif // PRODUCT'',
      '''']"

definition all_fields_tail :: "string list" where
  "all_fields_tail =
     ['''',
      ''#ifndef MANUFACTURER'',
      ''#    define MANUFACTURER Acme'',
      ''#endif // MANUFACTURER'',
      '''',
      '''',
      ''#ifndef MATRIX_COLS'',
      ''#    define MATRIX_COLS 2'',
      ''#endif // MATRIX_COLS'',
      '''',
      ''#ifndef MATRIX_COL_PINS'',
      ''#    define MATRIX_COL_PINS {A0,A1}'',
      ''#endif // MATRIX_COL_PINS'',
      '''',
      '''',
      ''#ifndef MATRIX_ROWS'',
      ''#    define MATRIX_ROWS 1'',
      ''#endif // MATRIX_ROWS'',
      '''',
      ''#ifndef MATRIX_ROW_PINS'',
      ''#    define MATRIX_ROW_PINS {B0}'',
      ''#endif // MATRIX_ROW_PINS'',
      '''',
      '''',
      ''#ifndef VENDOR_ID'',
      ''#    define VENDOR_ID 0x1234'',
      ''#endif // VENDOR_ID'',
      '''',
      ''#ifndef DEVICE_VER'',
      ''#    define DEVICE_VER 1'',
      ''#endif // DEVICE_VER'']"

text \<open>An outcome that the command reported through its log before returning \<open>False\<close>.\<close>

definition reported :: "outcome \<Rightarrow> bool" where
  "reported r = (case r of Reported _ \<Rightarrow> True | Raised _ \<Rightarrow> False | Emitted _ \<Rightarrow> False)"

section \<open>Properties of the embedding\<close>

subsection \<open>Closed forms of the iterations\<close>

lemma direct_pins_loop_map:
  "direct_pins_loop dp acc =
     acc @ map (\<lambda>row. ''{'' @ str_join '','' (map pin_or_no_pin row) @ ''}'') dp"
  by (induction dp arbitrary: acc) simp_all

lemma append_usb_concat:
  "append_usb props u ls = ls @ concat (map (usb_entry u) props)"
  by (induction props arbitrary: ls) (auto simp: usb_entry_def split: option.splits)

lemma direct_pins_Nil: "direct_pins [] = Inl IndexError"
  by (simp add: direct_pins_def)

lemma direct_pins_Cons: "\<exists>t. direct_pins (r # rs) = Inr t"
  by (simp add: direct_pins_def Let_def)

lemma matrix_pins_step:
  assumes "\<not> direct_empty kb"
  shows "(case kb_matrix_pins kb of None \<Rightarrow> Inr ls | Some mp \<Rightarrow> append_matrix_pins mp ls) =
         Inr (ls @ direct_block kb @ cols_block kb @ rows_block kb)"
proof (cases "kb_matrix_pins kb")
  case None
  then show ?thesis
    by (simp add: direct_block_def cols_block_def rows_block_def)
next
  case mp: (Some mp)
  show ?thesis
  proof (cases "mp_direct mp")
    case None
    with mp show ?thesis
      by (simp add: append_matrix_pins_def direct_block_def cols_block_def rows_block_def
          split: option.splits)
  next
    case (Some d)
    with mp assms have "d \<noteq> []"
      by (auto simp: direct_empty_def)
    then obtain t where "direct_pins d = Inr t"
      using direct_pins_Cons by (cases d) auto
    with mp Some show ?thesis
      by (simp add: append_matrix_pins_def direct_block_def cols_block_def rows_block_def
          split: option.splits)
  qed
qed

lemma usb_step:
  "(case kb_usb kb of None \<Rightarrow> ls | Some u \<Rightarrow> append_usb usb_properties u ls) =
     ls @ block kb Vid @ block kb Pid @ block kb Device_ver"
  by (simp add: append_usb_concat usb_properties_def usb_block_def split: option.splits)

lemma config_h_raises: "direct_empty kb \<Longrightarrow> config_h kb = Inl IndexError"
  by (auto simp: direct_empty_def config_h_def append_matrix_pins_def direct_pins_Nil
      split: option.splits)

lemma config_h_returns:
  assumes "\<not> direct_empty kb"
  shows "config_h kb = Inr (str_join nl (header_lines @ concat (map (block kb) field_order)))"
proof -
  have "config_h kb =
      Inr (str_join nl
        ((header_lines @ block kb Diode_direction @ block kb Keyboard_name @
            block kb Manufacturer) @
          direct_block kb @ cols_block kb @ rows_block kb @
          block kb Vid @ block kb Pid @ block kb Device_ver))"
    unfolding config_h_def Let_def header_lines_def [symmetric]
    by (simp add: matrix_pins_step [OF assms] usb_step split: option.splits)
  then show ?thesis
    by (simp add: field_order_def)
qed

lemma config_h_Inr:
  "config_h kb = Inr out \<Longrightarrow>
     \<not> direct_empty kb \<and> out = str_join nl (header_lines @ concat (map (block kb) field_order))"
  by (cases "direct_empty kb") (simp_all add: config_h_raises config_h_returns)

subsection \<open>Joining\<close>

lemma str_join_Cons:
  "str_join sep (x # xs) = x @ concat (map (\<lambda>y. sep @ y) xs)"
  by (induction xs arbitrary: x) simp_all

lemma str_join_append:
  "xs \<noteq> [] \<Longrightarrow> str_join sep (xs @ ys) = str_join sep xs @ concat (map (\<lambda>y. sep @ y) ys)"
  by (cases xs) (simp_all add: str_join_Cons)

subsection \<open>Lines of a joined text\<close>

lemma split_lines_not_Nil [simp]: "split_lines s \<noteq> []"
  by (induction s) (auto split: list.splits)

lemma split_lines_one_line: "one_line s \<Longrightarrow> split_lines s = [s]"
  by (induction s) (auto simp: one_line_def)

lemma split_lines_upto_nl:
  "one_line a \<Longrightarrow> split_lines (a @ CHR 0x0A # b) = a # split_lines b"
  by (induction a) (auto simp: one_line_def)

lemma split_lines_at_nl:
  "split_lines (a @ CHR 0x0A # b) = split_lines a @ split_lines b"
  by (induction a) (auto split: list.splits)

lemma split_lines_join_Cons:
  "split_lines (str_join nl (p # ps)) = split_lines p @ concat (map split_lines ps)"
  by (induction ps arbitrary: p) (simp_all add: split_lines_at_nl)

lemma one_line_Nil [simp]: "one_line []"
  by (simp add: one_line_def)

lemma one_line_Cons [simp]: "one_line (c # cs) \<longleftrightarrow> c \<noteq> CHR 0x0A \<and> one_line cs"
  by (auto simp: one_line_def)

lemma one_line_append [simp]: "one_line (a @ b) \<longleftrightarrow> one_line a \<and> one_line b"
  by (auto simp: one_line_def)

lemma one_line_str_join:
  "one_line sep \<Longrightarrow> list_all one_line xs \<Longrightarrow> one_line (str_join sep xs)"
  by (induction sep xs rule: str_join.induct) simp_all

lemma digit_char_not_nl: "d < 10 \<Longrightarrow> digit_char d \<noteq> CHR 0x0A"
proof -
  assume "d < 10"
  then have "digit_char d \<in> set ''0123456789''"
    unfolding digit_char_def by (intro nth_mem) simp
  then show ?thesis by auto
qed

lemma one_line_str_nat [simp]: "one_line (str_nat n)"
proof (induction n rule: str_nat.induct)
  case (1 n)
  show ?case
  proof (cases "n < 10")
    case True
    then show ?thesis
      by (subst str_nat.simps) (simp add: digit_char_not_nl)
  next
    case False
    with 1 have "one_line (str_nat (n div 10))" by simp
    with False show ?thesis
      by (subst str_nat.simps) (simp add: digit_char_not_nl)
  qed
qed

lemma one_line_str_scalar_SInt [simp]: "one_line (str_scalar (SInt i))"
  by simp

subsection \<open>Guarded line lists compose\<close>

lemma guard_at_left: "guard_at xs i \<Longrightarrow> guard_at (xs @ ys) i"
proof -
  assume g: "guard_at xs i"
  then have "0 < i" and "Suc i < length xs"
    by (simp_all only: guard_at_def)
  then have "i < length xs" and "i - 1 < length xs"
    by arith+
  with \<open>Suc i < length xs\<close>
  have "(xs @ ys) ! i = xs ! i" "(xs @ ys) ! (i - 1) = xs ! (i - 1)"
    "(xs @ ys) ! Suc i = xs ! Suc i" "Suc i < length (xs @ ys)"
    by (simp_all only: nth_append if_True length_append trans_less_add1)
  with g show ?thesis
    by (simp only: guard_at_def)
qed

lemma guard_at_right: "guard_at ys j \<Longrightarrow> guard_at (xs @ ys) (length xs + j)"
proof -
  assume g: "guard_at ys j"
  then have "0 < j" and "Suc j < length ys"
    by (simp_all only: guard_at_def)
  then have "length xs + j - 1 = length xs + (j - 1)"
    and "Suc (length xs + j) = length xs + Suc j"
    by arith+
  with \<open>0 < j\<close> \<open>Suc j < length ys\<close>
  have "(xs @ ys) ! (length xs + j) = ys ! j"
    "(xs @ ys) ! (length xs + j - 1) = ys ! (j - 1)"
    "(xs @ ys) ! Suc (length xs + j) = ys ! Suc j"
    "Suc (length xs + j) < length (xs @ ys)" "0 < length xs + j"
    by (simp_all only: nth_append_length_plus length_append nat_add_left_cancel_less
        trans_less_add2)
  with g show ?thesis
    by (simp only: guard_at_def)
qed

lemma guarded_append: "guarded xs \<Longrightarrow> guarded ys \<Longrightarrow> guarded (xs @ ys)"
  unfolding guarded_def
proof (intro allI impI)
  fix i
  assume gx: "\<forall>i<length xs. is_define (xs ! i) \<longrightarrow> guard_at xs i"
    and gy: "\<forall>i<length ys. is_define (ys ! i) \<longrightarrow> guard_at ys i"
    and i: "i < length (xs @ ys)" and d: "is_define ((xs @ ys) ! i)"
  show "guard_at (xs @ ys) i"
  proof (cases "i < length xs")
    case True
    with d have "is_define (xs ! i)" by (simp add: nth_append)
    with gx True show ?thesis by (simp add: guard_at_left)
  next
    case False
    define j where "j = i - length xs"
    from False i have j: "j < length ys" "i = length xs + j" by (auto simp: j_def)
    with d have "is_define (ys ! j)" by (simp add: nth_append)
    with gy j show ?thesis by (simp add: guard_at_right)
  qed
qed

lemma guarded_Nil: "guarded []"
  by (simp add: guarded_def)

lemma guarded_concat: "(\<And>xs. xs \<in> set xss \<Longrightarrow> guarded xs) \<Longrightarrow> guarded (concat xss)"
  by (induction xss) (simp_all add: guarded_append guarded_Nil)

lemma concat_split_lines:
  "list_all one_line ls \<Longrightarrow> concat (map split_lines ls) = ls"
  by (induction ls) (simp_all add: split_lines_one_line)

lemma split_lines_join:
  "list_all one_line (l # ls) \<Longrightarrow> split_lines (str_join nl (l # ls)) = l # ls"
  using concat_split_lines [of "l # ls"] by (simp add: split_lines_join_Cons)

subsection \<open>Every template is guarded\<close>

lemmas guarded_eval =
  guarded_def guard_at_def All_less_Suc is_define_def directive_def macro_name_def blank_def

lemma guarded_header: "guarded (concat (map split_lines header_lines))"
proof -
  have "concat (map split_lines header_lines) = header_lines"
    by (rule concat_split_lines) (simp add: header_lines_def generated_comment_def)
  moreover have "guarded header_lines"
    by (simp add: header_lines_def generated_comment_def guarded_eval)
  ultimately show ?thesis
    by (simp only:)
qed

lemma guarded_diode_direction:
  assumes "one_line v"
  shows "guarded (split_lines (diode_direction v))"
proof -
  let ?ls = "['''', ''#ifndef DIODE_DIRECTION'', ''#   define DIODE_DIRECTION '' @ v,
    ''#endif // DIODE_DIRECTION'', '''']"
  have tx: "diode_direction v = str_join nl ?ls"
    by (simp add: diode_direction_def)
  have "guarded ?ls"
    by (simp add: guarded_eval)
  moreover from assms have "split_lines (str_join nl ?ls) = ?ls"
    by (intro split_lines_join) simp
  ultimately show ?thesis
    by (simp only: tx)
qed

lemma guarded_keyboard_name:
  assumes "one_line v"
  shows "guarded (split_lines (keyboard_name v))"
proof -
  let ?ls = "['''', ''#ifndef DESCRIPTION'', ''#    define DESCRIPTION '' @ v,
    ''#endif // DESCRIPTION'', '''',
    ''#ifndef PRODUCT'', ''#    define PRODUCT '' @ v, ''#endif // PRODUCT'', '''']"
  have tx: "keyboard_name v = str_join nl ?ls"
    by (simp add: keyboard_name_def)
  have "guarded ?ls"
    by (simp add: guarded_eval)
  moreover from assms have "split_lines (str_join nl ?ls) = ?ls"
    by (intro split_lines_join) simp
  ultimately show ?thesis
    by (simp only: tx)
qed

lemma guarded_manufacturer:
  assumes "one_line v"
  shows "guarded (split_lines (manufacturer v))"
proof -
  let ?ls = "['''', ''#ifndef MANUFACTURER'', ''#    define MANUFACTURER '' @ v,
    ''#endif // MANUFACTURER'', '''']"
  have tx: "manufacturer v = str_join nl ?ls"
    by (simp add: manufacturer_def)
  have "guarded ?ls"
    by (simp add: guarded_eval)
  moreover from assms have "split_lines (str_join nl ?ls) = ?ls"
    by (intro split_lines_join) simp
  ultimately show ?thesis
    by (simp only: tx)
qed

lemma guarded_col_pins:
  assumes "list_all one_line cp"
  shows "guarded (split_lines (col_pins cp))"
proof -
  let ?ls = "['''', ''#ifndef MATRIX_COLS'',
    ''#    define MATRIX_COLS '' @ str_nat (length cp),
    ''#endif // MATRIX_COLS'', '''',
    ''#ifndef MATRIX_COL_PINS'',
    ''#    define MATRIX_COL_PINS {'' @ str_join '','' cp @ ''}'',
    ''#endif // MATRIX_COL_PINS'', '''']"
  from assms have ps: "one_line (str_join '','' cp)"
    by (simp add: one_line_str_join)
  have tx: "col_pins cp = str_join nl ?ls"
    by (simp add: col_pins_def)
  have "guarded ?ls"
    by (simp add: guarded_eval)
  moreover from ps have "split_lines (str_join nl ?ls) = ?ls"
    by (intro split_lines_join) simp
  ultimately show ?thesis
    by (simp only: tx)
qed

lemma guarded_row_pins:
  assumes "list_all one_line rp"
  shows "guarded (split_lines (row_pins rp))"
proof -
  let ?ls = "['''', ''#ifndef MATRIX_ROWS'',
    ''#    define MATRIX_ROWS '' @ str_nat (length rp),
    ''#endif // MATRIX_ROWS'', '''',
    ''#ifndef MATRIX_ROW_PINS'',
    ''#    define MATRIX_ROW_PINS {'' @ str_join '','' rp @ ''}'',
    ''#endif // MATRIX_ROW_PINS'', '''']"
  from assms have ps: "one_line (str_join '','' rp)"
    by (simp add: one_line_str_join)
  have tx: "row_pins rp = str_join nl ?ls"
    by (simp add: row_pins_def)
  have "guarded ?ls"
    by (simp add: guarded_eval)
  moreover from ps have "split_lines (str_join nl ?ls) = ?ls"
    by (intro split_lines_join) simp
  ultimately show ?thesis
    by (simp only: tx)
qed

lemma one_line_direct_rows:
  assumes "list_all one_line (concat (map (map pin_or_no_pin) d))"
  shows "one_line (str_join '','' (direct_pins_loop d []))"
proof -
  have "list_all one_line (map (\<lambda>row. ''{'' @ str_join '','' (map pin_or_no_pin row) @ ''}'') d)"
    using assms by (induction d) (simp_all add: one_line_str_join)
  then show ?thesis
    by (simp add: direct_pins_loop_map one_line_str_join)
qed

lemma direct_pins_lines:
  assumes "direct_pins d = Inr t"
  shows "t =
      str_join nl
        ['''', ''#ifndef MATRIX_COLS'',
         ''#    define MATRIX_COLS '' @ str_nat (length (hd d)),
         ''#endif // MATRIX_COLS'', '''',
         ''#ifndef MATRIX_ROWS'',
         ''#    define MATRIX_ROWS '' @ str_nat (length d),
         ''#endif // MATRIX_ROWS'', '''',
         ''#ifndef DIRECT_PINS'',
         ''#    define DIRECT_PINS {'' @ str_join '','' (direct_pins_loop d []) @ ''}'',
         ''#endif // DIRECT_PINS'', '''']"
  using assms by (cases d) (auto simp: direct_pins_def)

lemma guarded_direct_lines:
  "guarded
     ['''', ''#ifndef MATRIX_COLS'', ''#    define MATRIX_COLS '' @ n,
      ''#endif // MATRIX_COLS'', '''',
      ''#ifndef MATRIX_ROWS'', ''#    define MATRIX_ROWS '' @ m,
      ''#endif // MATRIX_ROWS'', '''',
      ''#ifndef DIRECT_PINS'', ''#    define DIRECT_PINS {'' @ ps @ ''}'',
      ''#endif // DIRECT_PINS'', '''']"
  by (simp add: guarded_eval)

lemma guarded_direct_pins:
  assumes "direct_pins d = Inr t" and "list_all one_line (concat (map (map pin_or_no_pin) d))"
  shows "guarded (split_lines t)"
proof -
  from assms(2) have "one_line (str_join '','' (direct_pins_loop d []))"
    by (rule one_line_direct_rows)
  then have "split_lines (str_join nl
        ['''', ''#ifndef MATRIX_COLS'',
         ''#    define MATRIX_COLS '' @ str_nat (length (hd d)),
         ''#endif // MATRIX_COLS'', '''',
         ''#ifndef MATRIX_ROWS'',
         ''#    define MATRIX_ROWS '' @ str_nat (length d),
         ''#endif // MATRIX_ROWS'', '''',
         ''#ifndef DIRECT_PINS'',
         ''#    define DIRECT_PINS {'' @ str_join '','' (direct_pins_loop d []) @ ''}'',
         ''#endif // DIRECT_PINS'', '''']) =
        ['''', ''#ifndef MATRIX_COLS'',
         ''#    define MATRIX_COLS '' @ str_nat (length (hd d)),
         ''#endif // MATRIX_COLS'', '''',
         ''#ifndef MATRIX_ROWS'',
         ''#    define MATRIX_ROWS '' @ str_nat (length d),
         ''#endif // MATRIX_ROWS'', '''',
         ''#ifndef DIRECT_PINS'',
         ''#    define DIRECT_PINS {'' @ str_join '','' (direct_pins_loop d []) @ ''}'',
         ''#endif // DIRECT_PINS'', '''']"
    by (intro split_lines_join) simp
  then show ?thesis
    by (simp only: direct_pins_lines [OF assms(1), symmetric] guarded_direct_lines)
qed

lemma guarded_usb_entry:
  assumes "p \<in> set usb_properties"
    and "\<And>v. u (fst p) = Some v \<Longrightarrow> one_line (str_scalar v)"
  shows "guarded (concat (map split_lines (usb_entry u p)))"
proof (cases "u (fst p)")
  case None
  then show ?thesis by (simp add: usb_entry_def guarded_Nil)
next
  case (Some v)
  with assms(2) have ol: "one_line (str_scalar v)" by simp
  have "concat (map split_lines (usb_entry u p)) = usb_entry u p"
    using ol Some assms(1)
    by (intro concat_split_lines) (auto simp: usb_properties_def usb_entry_def)
  with Some assms(1) show ?thesis
    by (auto simp: usb_properties_def usb_entry_def guarded_eval)
qed

subsection \<open>Every block is guarded\<close>

lemma substituted_one_line:
  assumes "list_all one_line (substituted kb)"
  shows "\<And>v. kb_diode_direction kb = Some v \<Longrightarrow> one_line v"
    and "\<And>v. kb_keyboard_name kb = Some v \<Longrightarrow> one_line v"
    and "\<And>v. kb_manufacturer kb = Some v \<Longrightarrow> one_line v"
    and "\<And>mp d. kb_matrix_pins kb = Some mp \<Longrightarrow> mp_direct mp = Some d \<Longrightarrow>
          list_all one_line (concat (map (map pin_or_no_pin) d))"
    and "\<And>mp c. kb_matrix_pins kb = Some mp \<Longrightarrow> mp_cols mp = Some c \<Longrightarrow> list_all one_line c"
    and "\<And>mp r. kb_matrix_pins kb = Some mp \<Longrightarrow> mp_rows mp = Some r \<Longrightarrow> list_all one_line r"
    and "\<And>u p v. kb_usb kb = Some u \<Longrightarrow> p \<in> set usb_properties \<Longrightarrow> u (fst p) = Some v \<Longrightarrow>
          one_line (str_scalar v)"
proof -
  fix u p v
  assume u: "kb_usb kb = Some u" and p: "p \<in> set usb_properties" and v: "u (fst p) = Some v"
  from u p v have "str_scalar v \<in> set (substituted kb)"
    by (auto simp: substituted_def intro!: bexI [of _ p])
  with assms show "one_line (str_scalar v)"
    by (simp add: list_all_iff)
qed (use assms in \<open>auto simp: substituted_def list_all_iff\<close>)

lemma guarded_usb_block:
  assumes "list_all one_line (substituted kb)" and "p \<in> set usb_properties"
  shows "guarded (concat (map split_lines (usb_block kb p)))"
proof (cases "kb_usb kb")
  case None
  then show ?thesis by (simp add: usb_block_def guarded_Nil)
next
  case (Some u)
  have "guarded (concat (map split_lines (usb_entry u p)))"
    using assms(2) substituted_one_line(7) [OF assms(1) Some assms(2)]
    by (rule guarded_usb_entry)
  with Some show ?thesis by (simp add: usb_block_def)
qed

lemma guarded_block:
  assumes "list_all one_line (substituted kb)" and "f \<in> set field_order"
  shows "guarded (concat (map split_lines (block kb f)))"
proof -
  note ol = substituted_one_line [OF assms(1)]
  show ?thesis
  proof (cases f)
    case Diode_direction
    then show ?thesis
      by (auto simp: guarded_Nil guarded_diode_direction ol split: option.splits)
  next
    case Keyboard_name
    then show ?thesis
      by (auto simp: guarded_Nil guarded_keyboard_name ol split: option.splits)
  next
    case Manufacturer
    then show ?thesis
      by (auto simp: guarded_Nil guarded_manufacturer ol split: option.splits)
  next
    case Direct
    then show ?thesis
      by (auto simp: direct_block_def guarded_Nil ol
          intro: guarded_direct_pins split: option.splits sum.splits)
  next
    case Cols
    then show ?thesis
      by (auto simp: cols_block_def guarded_Nil guarded_col_pins ol split: option.splits)
  next
    case Rows
    then show ?thesis
      by (auto simp: rows_block_def guarded_Nil guarded_row_pins ol split: option.splits)
  next
    case Vid
    then show ?thesis
      using guarded_usb_block [OF assms(1), of "(''vid'', ''VENDOR_ID'')"]
      by (simp add: usb_properties_def)
  next
    case Pid
    then show ?thesis
      using guarded_usb_block [OF assms(1), of "(''pid'', ''PRODUCT_ID'')"]
      by (simp add: usb_properties_def)
  next
    case Device_ver
    then show ?thesis
      using guarded_usb_block [OF assms(1), of "(''device_ver'', ''DEVICE_VER'')"]
      by (simp add: usb_properties_def)
  next
    case Matrix_pins
    with assms(2) show ?thesis by (simp add: field_order_def)
  next
    case Usb
    with assms(2) show ?thesis by (simp add: field_order_def)
  qed
qed

lemma concat_map_concat:
  "concat (map g (concat xss)) = concat (map (\<lambda>xs. concat (map g xs)) xss)"
  by (induction xss) simp_all

lemma split_lines_join_nonempty:
  "ps \<noteq> [] \<Longrightarrow> split_lines (str_join nl ps) = concat (map split_lines ps)"
  by (cases ps) (simp_all add: split_lines_join_Cons)

lemma config_h_lines:
  assumes "config_h kb = Inr out"
  shows "split_lines out =
     concat (map split_lines header_lines) @
     concat (map (\<lambda>f. concat (map split_lines (block kb f))) field_order)"
proof -
  have "header_lines @ concat (map (block kb) field_order) \<noteq> []"
    by (simp add: header_lines_def)
  then have "split_lines (str_join nl (header_lines @ concat (map (block kb) field_order))) =
      concat (map split_lines (header_lines @ concat (map (block kb) field_order)))"
    by (rule split_lines_join_nonempty)
  moreover from assms
  have "out = str_join nl (header_lines @ concat (map (block kb) field_order))"
    by (simp add: config_h_Inr)
  ultimately show ?thesis
    by (simp only: map_append concat_append concat_map_concat map_map o_def)
qed

lemma config_h_guarded:
  assumes "config_h kb = Inr out" and "list_all one_line (substituted kb)"
  shows "guarded (split_lines out)"
  unfolding config_h_lines [OF assms(1)]
  by (intro guarded_append guarded_header guarded_concat)
    (auto simp: guarded_block [OF assms(2)])

subsection \<open>Taking a field out\<close>

lemma direct_empty_remove_field:
  "\<not> direct_empty kb \<Longrightarrow> \<not> direct_empty (remove_field f kb)"
  by (cases f) (auto simp: direct_empty_def split: option.splits)

lemma usb_entry_removed:
  "usb_entry (u(k := None)) p = (if fst p = k then [] else usb_entry u p)"
  by (simp add: usb_entry_def)

lemma block_remove_field:
  assumes "\<not> direct_empty kb" and "g \<in> set field_order"
  shows "block (remove_field f kb) g = (if g \<in> set (leaves f) then [] else block kb g)"
proof -
  from assms(2) consider "g = Diode_direction" | "g = Keyboard_name" | "g = Manufacturer"
    | "g = Direct" | "g = Cols" | "g = Rows" | "g = Vid" | "g = Pid" | "g = Device_ver"
    by (auto simp: field_order_def)
  then show ?thesis
  proof cases
    case 1
    then show ?thesis by (cases f) simp_all
  next
    case 2
    then show ?thesis by (cases f) simp_all
  next
    case 3
    then show ?thesis by (cases f) simp_all
  next
    case 4
    then show ?thesis
      by (cases f) (simp_all add: direct_block_def split: option.splits)
  next
    case 5
    then show ?thesis
      by (cases f) (simp_all add: cols_block_def split: option.splits)
  next
    case 6
    then show ?thesis
      by (cases f) (simp_all add: rows_block_def split: option.splits)
  next
    case 7
    then show ?thesis
      by (cases f) (simp_all add: usb_block_def usb_entry_removed split: option.splits)
  next
    case 8
    then show ?thesis
      by (cases f) (simp_all add: usb_block_def usb_entry_removed split: option.splits)
  next
    case 9
    then show ?thesis
      by (cases f) (simp_all add: usb_block_def usb_entry_removed split: option.splits)
  qed
qed

lemma concat_map_unless:
  "concat (map (\<lambda>g. if P g then [] else h g) gs) = concat (map h (filter (\<lambda>g. \<not> P g) gs))"
  by (induction gs) simp_all

lemma blocks_remove_field:
  assumes "\<not> direct_empty kb"
  shows "concat (map (block (remove_field f kb)) field_order) =
    concat (map (block kb) (filter (\<lambda>g. g \<notin> set (leaves f)) field_order))"
proof -
  have "map (block (remove_field f kb)) field_order =
      map (\<lambda>g. if g \<in> set (leaves f) then [] else block kb g) field_order"
    by (rule map_cong [OF refl]) (rule block_remove_field [OF assms])
  then show ?thesis
    by (simp only: concat_map_unless)
qed

subsection \<open>Where a block sits in the text\<close>

lemma str_join_one_block:
  "xs \<noteq> [] \<Longrightarrow> \<exists>a b. str_join sep (xs @ t # ys) = a @ sep @ t @ b"
proof -
  assume "xs \<noteq> []"
  then have "str_join sep (xs @ t # ys) =
      str_join sep xs @ sep @ t @ concat (map (\<lambda>y. sep @ y) ys)"
    by (simp add: str_join_append)
  then show ?thesis by blast
qed

lemma str_join_two_blocks:
  "xs \<noteq> [] \<Longrightarrow> \<exists>a b c. str_join sep (xs @ t # ys @ u # zs) = a @ sep @ t @ b @ sep @ u @ c"
proof -
  assume "xs \<noteq> []"
  then have "str_join sep (xs @ t # ys @ u # zs) =
      str_join sep xs @ sep @ t @ concat (map (\<lambda>y. sep @ y) ys) @ sep @ u @
      concat (map (\<lambda>y. sep @ y) zs)"
    by (simp add: str_join_append)
  then show ?thesis by blast
qed

lemma pin_or_no_pin_cases:
  "pin_or_no_pin = (\<lambda>cell. case cell of None \<Rightarrow> ''NO_PIN'' | Some s \<Rightarrow> if s = [] then ''NO_PIN'' else s)"
  by (rule ext) (simp split: option.splits)

lemma direct_pins_text:
  "direct_pins (first # rest) =
     Inr (nl @
       macro_guard ''MATRIX_COLS'' (str_nat (length first)) @ nl @ nl @
       macro_guard ''MATRIX_ROWS'' (str_nat (length (first # rest))) @ nl @ nl @
       macro_guard ''DIRECT_PINS''
         (''{'' @
          str_join '',''
            (map (\<lambda>row. ''{'' @ str_join '','' (map pin_or_no_pin row) @ ''}'') (first # rest)) @
          ''}'') @
       nl)"
  by (simp add: direct_pins_def macro_guard_def direct_pins_loop_map)

lemma col_pins_text:
  "col_pins cs =
     nl @
     macro_guard ''MATRIX_COLS'' (str_nat (length cs)) @ nl @ nl @
     macro_guard ''MATRIX_COL_PINS'' (''{'' @ str_join '','' cs @ ''}'') @
     nl"
  by (simp add: col_pins_def macro_guard_def)

lemma row_pins_text:
  "row_pins rs =
     nl @
     macro_guard ''MATRIX_ROWS'' (str_nat (length rs)) @ nl @ nl @
     macro_guard ''MATRIX_ROW_PINS'' (''{'' @ str_join '','' rs @ ''}'') @
     nl"
  by (simp add: row_pins_def macro_guard_def)

lemma config_h_matrix:
  assumes "config_h kb = Inr out" and "kb_matrix_pins kb = Some mp"
  shows "out = str_join nl
    ((header_lines @ block kb Diode_direction @ block kb Keyboard_name @ block kb Manufacturer) @
     (case mp_direct mp of None \<Rightarrow> [] | Some d \<Rightarrow> (case direct_pins d of Inl e \<Rightarrow> [] | Inr t \<Rightarrow> [t])) @
     (case mp_cols mp of None \<Rightarrow> [] | Some c \<Rightarrow> [col_pins c]) @
     (case mp_rows mp of None \<Rightarrow> [] | Some r \<Rightarrow> [row_pins r]) @
     block kb Vid @ block kb Pid @ block kb Device_ver)"
  using config_h_Inr [OF assms(1)] assms(2)
  by (simp add: field_order_def direct_block_def cols_block_def rows_block_def)

lemma block_text_in_output:
  assumes "out = str_join nl (xs @ [t] @ ys)" and "xs \<noteq> []" and "t = nl @ E @ nl"
  shows "\<exists>pre post. out = pre @ E @ post"
proof -
  from assms(2) obtain a b where "str_join nl (xs @ t # ys) = a @ nl @ t @ b"
    using str_join_one_block by blast
  with assms(1,3) have "out = (a @ nl @ nl) @ E @ (nl @ b)"
    by simp
  then show ?thesis by blast
qed

section \<open>The claims\<close>

text \<open>
  C9.  For the record with no field at all, the generated text is exactly the header: the
  comment line and \<open>#pragma once\<close>, separated by one blank line, and no macro block follows.
\<close>

theorem empty_record_header:
  "config_h no_fields = Inr (generated_comment @ nl @ nl @ ''#pragma once'') \<and>
   split_lines (generated_comment @ nl @ nl @ ''#pragma once'') =
     [generated_comment, '''', ''#pragma once''] \<and>
   concat (map (block no_fields) field_order) = []"
proof (intro conjI)
  show "config_h no_fields = Inr (generated_comment @ nl @ nl @ ''#pragma once'')"
    by (simp add: config_h_def no_fields_def)
  have "split_lines (str_join nl [generated_comment, '''', ''#pragma once'']) =
      [generated_comment, '''', ''#pragma once'']"
    by (rule split_lines_join) (simp add: generated_comment_def)
  then show "split_lines (generated_comment @ nl @ nl @ ''#pragma once'') =
      [generated_comment, '''', ''#pragma once'']"
    by simp
  show "concat (map (block no_fields) field_order) = []"
    by (simp add: field_order_def no_fields_def direct_block_def cols_block_def rows_block_def
        usb_block_def)
qed

text \<open>
  C8, as the code has it.  Whenever a text is generated, its first line is the comment
  literal of the source, which names the command \<open>qmk generate-config-h\<close>.
\<close>

theorem first_line_is_comment:
  assumes "config_h kb = Inr out"
  shows "hd (split_lines out) =
    ''/* This file was generated by `qmk generate-config-h`. Do not edit or copy. */''"
proof -
  from assms have "out = str_join nl (header_lines @ concat (map (block kb) field_order))"
    by (simp add: config_h_Inr)
  then have "split_lines out =
      split_lines generated_comment @
      concat (map split_lines ('''' # ''#pragma once'' # concat (map (block kb) field_order)))"
    by (simp only: header_lines_def append_Cons append_Nil split_lines_join_Cons)
  moreover have "split_lines generated_comment = [generated_comment]"
    by (rule split_lines_one_line) (simp add: generated_comment_def)
  ultimately have "hd (split_lines out) = generated_comment"
    by simp
  then show ?thesis
    by (simp add: generated_comment_def)
qed

theorem first_line_is_comment_witness:
  "config_h no_fields = Inr (generated_comment @ nl @ nl @ ''#pragma once'') \<and>
   hd (split_lines (generated_comment @ nl @ nl @ ''#pragma once'')) =
     ''/* This file was generated by `qmk generate-config-h`. Do not edit or copy. */''"
proof -
  have h: "config_h no_fields = Inr (generated_comment @ nl @ nl @ ''#pragma once'')"
    by (simp add: config_h_def no_fields_def)
  from h first_line_is_comment [OF h] show ?thesis
    by (simp only: simp_thms)
qed

text \<open>
  The literal that C8 quotes is not the one generated: on the empty record the first line
  differs from it.
\<close>

theorem first_line_counterexample:
  "config_h no_fields = Inr (generated_comment @ nl @ nl @ ''#pragma once'') \<and>
   hd (split_lines (generated_comment @ nl @ nl @ ''#pragma once'')) \<noteq>
     ''/* This file was generated by the config generator. Do not edit or copy. */''"
proof (intro conjI)
  show "config_h no_fields = Inr (generated_comment @ nl @ nl @ ''#pragma once'')"
    by (simp add: config_h_def no_fields_def)
  have "split_lines (str_join nl [generated_comment, '''', ''#pragma once'']) =
      [generated_comment, '''', ''#pragma once'']"
    by (rule split_lines_join) (simp add: generated_comment_def)
  then have "hd (split_lines (generated_comment @ nl @ nl @ ''#pragma once'')) = generated_comment"
    by simp
  then show "hd (split_lines (generated_comment @ nl @ nl @ ''#pragma once'')) \<noteq>
      ''/* This file was generated by the config generator. Do not edit or copy. */''"
    by (simp add: generated_comment_def)
qed

text \<open>
  C3, as the code has it.  Generation returns a text exactly when \<open>matrix_pins.direct\<close> is
  absent or has a row; when it is present with no row, \<open>direct_pins[0]\<close> raises
  \<open>IndexError\<close> and nothing is returned.  Every function of the embedding is total, so no
  other outcome exists.
\<close>

theorem generation_returns:
  "(\<not> direct_empty kb \<longrightarrow> (\<exists>out. config_h kb = Inr out)) \<and>
   (direct_empty kb \<longrightarrow> config_h kb = Inl IndexError)"
  by (simp add: config_h_raises config_h_returns)

theorem generation_returns_witness:
  "\<not> direct_empty scenario_C \<and> (\<exists>out. config_h scenario_C = Inr out) \<and>
   direct_empty empty_direct \<and> config_h empty_direct = Inl IndexError"
proof -
  have a: "\<not> direct_empty scenario_C"
    by (simp add: direct_empty_def scenario_C_def no_fields_def no_pins_def)
  have b: "direct_empty empty_direct"
    by (simp add: direct_empty_def empty_direct_def no_fields_def no_pins_def)
  from a b generation_returns [of scenario_C] generation_returns [of empty_direct]
  show ?thesis by blast
qed

text \<open>
  C3 as stated fails on the record whose \<open>matrix_pins.direct\<close> is the empty sequence:
  there the generator aborts.
\<close>

theorem generation_aborts_counterexample:
  "config_h empty_direct = Inl IndexError"
  by (simp add: config_h_def empty_direct_def no_fields_def no_pins_def
      append_matrix_pins_def direct_pins_def)

text \<open>
  C2, as the code has it.  When \<open>matrix_pins.direct\<close> is present with no row, generation
  produces no header text: \<open>IndexError\<close> escapes from \<open>direct_pins\<close> and, for a known
  keyboard, from the command.  It is an escaping exception, not one of the errors that the
  command reports.
\<close>

theorem empty_direct_raises:
  assumes "kb_matrix_pins kb = Some mp" and "mp_direct mp = Some []" and "k \<noteq> []"
  shows "config_h kb = Inl IndexError \<and>
    generate_config_h (Some k) True kb = Raised IndexError"
proof -
  from assms(1,2) have "direct_empty kb"
    by (simp add: direct_empty_def)
  then have "config_h kb = Inl IndexError"
    by (rule config_h_raises)
  with assms(3) show ?thesis
    by (simp add: generate_config_h_def)
qed

theorem empty_direct_raises_witness:
  "kb_matrix_pins empty_direct = Some (no_pins\<lparr>mp_direct := Some []\<rparr>) \<and>
   mp_direct (no_pins\<lparr>mp_direct := Some []\<rparr>) = Some [] \<and>
   ''planck'' \<noteq> [] \<and>
   config_h empty_direct = Inl IndexError \<and>
   generate_config_h (Some ''planck'') True empty_direct = Raised IndexError"
proof -
  have a: "kb_matrix_pins empty_direct = Some (no_pins\<lparr>mp_direct := Some []\<rparr>)"
    by (simp add: empty_direct_def no_fields_def)
  have b: "mp_direct (no_pins\<lparr>mp_direct := Some []\<rparr>) = Some []"
    by simp
  have c: "''planck'' \<noteq> []"
    by simp
  from a b c empty_direct_raises [OF a b c] show ?thesis
    by (simp only: simp_thms)
qed

text \<open>
  C2 as stated fails on the same record: the outcome of the command is not a reported
  error.
\<close>

theorem empty_direct_not_reported_counterexample:
  "\<not> reported (generate_config_h (Some ''planck'') True empty_direct)"
  by (simp add: reported_def generate_config_h_def config_h_def empty_direct_def
      no_fields_def no_pins_def append_matrix_pins_def direct_pins_def)

text \<open>
  C1, as the code has it.  The templates substitute their values verbatim.  When none of
  the substituted strings contains a line feed, every \<open>#define\<close> line of the generated
  text has the \<open>#ifndef\<close> line of the same macro right before it and the \<open>#endif\<close> line of the
  same macro right after it.
\<close>

theorem define_lines_guarded:
  assumes "config_h kb = Inr out"
    and "list_all one_line (substituted kb)"
    and "i < length (split_lines out)"
    and "is_define (split_lines out ! i)"
  shows "0 < i \<and>
    split_lines out ! (i - 1) = ''#ifndef '' @ macro_name (split_lines out ! i) \<and>
    Suc i < length (split_lines out) \<and>
    split_lines out ! Suc i = ''#endif // '' @ macro_name (split_lines out ! i)"
proof -
  from assms(1,2) have "guarded (split_lines out)"
    by (rule config_h_guarded)
  with assms(3,4) have "guard_at (split_lines out) i"
    by (simp only: guarded_def)
  then show ?thesis
    by (simp only: guard_at_def)
qed

theorem define_lines_guarded_witness:
  "config_h acme = Inr (str_join nl
     [generated_comment, '''', ''#pragma once'', '''',
      ''#ifndef MANUFACTURER'', ''#    define MANUFACTURER Acme'',
      ''#endif // MANUFACTURER'', '''']) \<and>
   list_all one_line (substituted acme) \<and>
   split_lines (str_join nl
     [generated_comment, '''', ''#pragma once'', '''',
      ''#ifndef MANUFACTURER'', ''#    define MANUFACTURER Acme'',
      ''#endif // MANUFACTURER'', '''']) ! 5 = ''#    define MANUFACTURER Acme'' \<and>
   is_define ''#    define MANUFACTURER Acme'' \<and>
   split_lines (str_join nl
     [generated_comment, '''', ''#pragma once'', '''',
      ''#ifndef MANUFACTURER'', ''#    define MANUFACTURER Acme'',
      ''#endif // MANUFACTURER'', '''']) ! 4 = ''#ifndef MANUFACTURER'' \<and>
   split_lines (str_join nl
     [generated_comment, '''', ''#pragma once'', '''',
      ''#ifndef MANUFACTURER'', ''#    define MANUFACTURER Acme'',
      ''#endif // MANUFACTURER'', '''']) ! 6 = ''#endif // MANUFACTURER''"
proof -
  let ?ls = "[generated_comment, '''', ''#pragma once'', '''',
      ''#ifndef MANUFACTURER'', ''#    define MANUFACTURER Acme'',
      ''#endif // MANUFACTURER'', '''']"
  have ls: "split_lines (str_join nl ?ls) = ?ls"
    by (rule split_lines_join) (simp add: generated_comment_def)
  have a: "config_h acme = Inr (str_join nl ?ls)"
    by (simp add: config_h_def acme_def no_fields_def manufacturer_def)
  have b: "list_all one_line (substituted acme)"
    by (simp add: substituted_def acme_def no_fields_def)
  have c: "5 < length (split_lines (str_join nl ?ls))"
    by (simp only: ls) simp
  have d5: "split_lines (str_join nl ?ls) ! 5 = ''#    define MANUFACTURER Acme''"
    by (simp only: ls) simp
  have isd: "is_define ''#    define MANUFACTURER Acme''"
    by (simp add: is_define_def directive_def blank_def)
  have d: "is_define (split_lines (str_join nl ?ls) ! 5)"
    by (simp only: d5 isd)
  have name: "macro_name ''#    define MANUFACTURER Acme'' = ''MANUFACTURER''"
    by (simp add: macro_name_def directive_def blank_def)
  from define_lines_guarded [OF a b c d]
  have "split_lines (str_join nl ?ls) ! (5 - 1) = ''#ifndef MANUFACTURER''"
    and "split_lines (str_join nl ?ls) ! Suc 5 = ''#endif // MANUFACTURER''"
    by (simp_all only: d5 name) simp_all
  then have "split_lines (str_join nl ?ls) ! 4 = ''#ifndef MANUFACTURER''"
    and "split_lines (str_join nl ?ls) ! 6 = ''#endif // MANUFACTURER''"
    by simp_all
  with a b d5 isd show ?thesis
    by (simp only: simp_thms)
qed

text \<open>
  C1 as stated fails when a substituted value spans two lines.  A manufacturer string
  whose second line is \<open>#define X 1\<close> is copied into the text as it is: that line is a
  \<open>#define\<close> line, and the line before it is not \<open>#ifndef X\<close>.
\<close>

theorem define_lines_counterexample:
  "config_h two_lines = Inr (str_join nl two_lines_out) \<and>
   split_lines (str_join nl two_lines_out) = two_lines_out \<and>
   two_lines_out ! 6 = ''#define X 1'' \<and>
   is_define (two_lines_out ! 6) \<and>
   two_lines_out ! 5 \<noteq> ''#ifndef '' @ macro_name (two_lines_out ! 6)"
proof (intro conjI)
  show "config_h two_lines = Inr (str_join nl two_lines_out)"
    by (simp add: config_h_def two_lines_def two_lines_out_def no_fields_def manufacturer_def)
  show "split_lines (str_join nl two_lines_out) = two_lines_out"
    unfolding two_lines_out_def
    by (rule split_lines_join) (simp add: generated_comment_def)
  show "two_lines_out ! 6 = ''#define X 1''"
    by (simp add: two_lines_out_def)
  show "is_define (two_lines_out ! 6)"
    by (simp add: two_lines_out_def is_define_def directive_def blank_def)
  show "two_lines_out ! 5 \<noteq> ''#ifndef '' @ macro_name (two_lines_out ! 6)"
    by (simp add: two_lines_out_def)
qed

text \<open>
  C5.  Whenever a text is generated, it is the header followed by the blocks of the fields
  in one fixed order: diode direction, keyboard name, manufacturer, the matrix pins as
  direct, cols, rows, and the USB fields as vid, pid, device\_ver.  A field that is absent
  contributes the empty block.  The record is indexed by key only, so the order in which
  an \<open>info.json\<close> lists its fields is no part of the input.
\<close>

theorem blocks_in_fixed_order:
  assumes "config_h kb = Inr out"
  shows "out = str_join nl
    (header_lines @
     concat (map (block kb)
       [Diode_direction, Keyboard_name, Manufacturer, Direct, Cols, Rows, Vid, Pid, Device_ver]))"
  using config_h_Inr [OF assms] by (simp only: field_order_def)

theorem blocks_in_fixed_order_witness:
  "config_h all_fields = Inr (str_join nl (all_fields_head @ all_fields_name @ all_fields_tail)) \<and>
   str_join nl (all_fields_head @ all_fields_name @ all_fields_tail) =
     str_join nl
       (header_lines @
        concat (map (block all_fields)
          [Diode_direction, Keyboard_name, Manufacturer, Direct, Cols, Rows, Vid, Pid,
           Device_ver]))"
proof -
  have a: "config_h all_fields =
      Inr (str_join nl (all_fields_head @ all_fields_name @ all_fields_tail))"
    by (simp add: config_h_def all_fields_def no_pins_def append_matrix_pins_def
        usb_properties_def diode_direction_def keyboard_name_def manufacturer_def
        col_pins_def row_pins_def all_fields_head_def all_fields_name_def all_fields_tail_def
        str_nat.simps digit_char_def)
  from a blocks_in_fixed_order [OF a] show ?thesis
    by (simp only: simp_thms)
qed

text \<open>
  C6.  Take any field out of a record on which a text is generated.  The text generated
  from the smaller record is the header followed by the blocks of the original record, in
  the same order and with the same content, except that the blocks of the removed field
  are gone (for \<open>matrix_pins\<close> and \<open>usb\<close>, the blocks of their sub-fields).
\<close>

theorem field_independence:
  assumes "config_h kb = Inr out"
  shows "out = str_join nl (header_lines @ concat (map (block kb) field_order)) \<and>
    config_h (remove_field f kb) =
      Inr (str_join nl
        (header_lines @
         concat (map (block kb) (filter (\<lambda>g. g \<notin> set (leaves f)) field_order))))"
proof -
  from assms have ne: "\<not> direct_empty kb"
    and out: "out = str_join nl (header_lines @ concat (map (block kb) field_order))"
    by (simp_all add: config_h_Inr)
  from ne have "\<not> direct_empty (remove_field f kb)"
    by (rule direct_empty_remove_field)
  then have "config_h (remove_field f kb) =
      Inr (str_join nl (header_lines @ concat (map (block (remove_field f kb)) field_order)))"
    by (rule config_h_returns)
  with out show ?thesis
    by (simp only: blocks_remove_field [OF ne] simp_thms)
qed

theorem field_independence_witness:
  "config_h all_fields = Inr (str_join nl (all_fields_head @ all_fields_name @ all_fields_tail)) \<and>
   config_h (remove_field Keyboard_name all_fields) =
     Inr (str_join nl (all_fields_head @ all_fields_tail))"
proof -
  have a: "config_h all_fields =
      Inr (str_join nl (all_fields_head @ all_fields_name @ all_fields_tail))"
    by (simp add: config_h_def all_fields_def no_pins_def append_matrix_pins_def
        usb_properties_def diode_direction_def keyboard_name_def manufacturer_def
        col_pins_def row_pins_def all_fields_head_def all_fields_name_def all_fields_tail_def
        str_nat.simps digit_char_def)
  have "str_join nl
        (header_lines @
         concat (map (block all_fields)
           (filter (\<lambda>g. g \<notin> set (leaves Keyboard_name)) field_order))) =
      str_join nl (all_fields_head @ all_fields_tail)"
    by (simp add: header_lines_def field_order_def all_fields_def no_pins_def
        direct_block_def cols_block_def rows_block_def usb_block_def usb_entry_def
        diode_direction_def manufacturer_def col_pins_def row_pins_def
        all_fields_head_def all_fields_tail_def str_nat.simps digit_char_def)
  with a field_independence [OF a, of Keyboard_name] show ?thesis
    by (simp only: simp_thms)
qed

text \<open>
  C4.  When \<open>matrix_pins.direct\<close> is present, with a first row, the generated text holds
  three guarded definitions in a row: \<open>MATRIX_COLS\<close> as the length of the first row,
  \<open>MATRIX_ROWS\<close> as the number of rows, and \<open>DIRECT_PINS\<close> as the brace-enclosed list of the
  rows, each row the brace-enclosed list of its cells with \<open>NO_PIN\<close> for a cell that is
  \<open>null\<close> or empty.  On scenario C of the specification the whole text is as shown.
\<close>

theorem direct_pins_defined:
  "(kb_matrix_pins kb = Some mp \<and> mp_direct mp = Some (first # rest) \<longrightarrow>
     (\<exists>pre post. config_h kb = Inr (pre @
        macro_guard ''MATRIX_COLS'' (str_nat (length first)) @ nl @ nl @
        macro_guard ''MATRIX_ROWS'' (str_nat (length (first # rest))) @ nl @ nl @
        macro_guard ''DIRECT_PINS''
          (''{'' @
           str_join '',''
             (map (\<lambda>row. ''{'' @
                str_join '',''
                  (map (\<lambda>cell. case cell of
                          None \<Rightarrow> ''NO_PIN''
                        | Some s \<Rightarrow> if s = [] then ''NO_PIN'' else s) row) @
                ''}'') (first # rest)) @
           ''}'') @
        post))) \<and>
   config_h scenario_C = Inr (str_join nl
     [generated_comment, '''', ''#pragma once'', '''',
      ''#ifndef MATRIX_COLS'', ''#    define MATRIX_COLS 2'', ''#endif // MATRIX_COLS'', '''',
      ''#ifndef MATRIX_ROWS'', ''#    define MATRIX_ROWS 2'', ''#endif // MATRIX_ROWS'', '''',
      ''#ifndef DIRECT_PINS'', ''#    define DIRECT_PINS {{A0,A1},{NO_PIN,B1}}'',
      ''#endif // DIRECT_PINS'', ''''])"
proof (intro conjI impI)
  assume "kb_matrix_pins kb = Some mp \<and> mp_direct mp = Some (first # rest)"
  then have mp: "kb_matrix_pins kb = Some mp" and d: "mp_direct mp = Some (first # rest)"
    by simp_all
  let ?E = "macro_guard ''MATRIX_COLS'' (str_nat (length first)) @ nl @ nl @
        macro_guard ''MATRIX_ROWS'' (str_nat (length (first # rest))) @ nl @ nl @
        macro_guard ''DIRECT_PINS''
          (''{'' @
           str_join '',''
             (map (\<lambda>row. ''{'' @ str_join '','' (map pin_or_no_pin row) @ ''}'') (first # rest)) @
           ''}'')"
  have t: "direct_pins (first # rest) = Inr (nl @ ?E @ nl)"
    using direct_pins_text [of first rest] by simp
  from mp d have "\<not> direct_empty kb"
    by (simp add: direct_empty_def)
  then obtain out where out: "config_h kb = Inr out"
    by (auto simp: config_h_returns)
  let ?hs = "header_lines @ block kb Diode_direction @ block kb Keyboard_name @
    block kb Manufacturer"
  have "?hs \<noteq> []"
    by (simp add: header_lines_def)
  then obtain a b where
    "str_join nl (?hs @ (nl @ ?E @ nl) #
       ((case mp_cols mp of None \<Rightarrow> [] | Some c \<Rightarrow> [col_pins c]) @
        (case mp_rows mp of None \<Rightarrow> [] | Some r \<Rightarrow> [row_pins r]) @
        block kb Vid @ block kb Pid @ block kb Device_ver)) = a @ nl @ (nl @ ?E @ nl) @ b"
    using str_join_one_block by blast
  with config_h_matrix [OF out mp] d t have "out = (a @ nl @ nl) @ ?E @ (nl @ b)"
    by simp
  with out have "\<exists>pre post. config_h kb = Inr (pre @ ?E @ post)"
    by blast
  then show "\<exists>pre post. config_h kb = Inr (pre @
        macro_guard ''MATRIX_COLS'' (str_nat (length first)) @ nl @ nl @
        macro_guard ''MATRIX_ROWS'' (str_nat (length (first # rest))) @ nl @ nl @
        macro_guard ''DIRECT_PINS''
          (''{'' @
           str_join '',''
             (map (\<lambda>row. ''{'' @
                str_join '',''
                  (map (\<lambda>cell. case cell of
                          None \<Rightarrow> ''NO_PIN''
                        | Some s \<Rightarrow> if s = [] then ''NO_PIN'' else s) row) @
                ''}'') (first # rest)) @
           ''}'') @
        post)"
    by (simp only: pin_or_no_pin_cases append_assoc)
next
  show "config_h scenario_C = Inr (str_join nl
     [generated_comment, '''', ''#pragma once'', '''',
      ''#ifndef MATRIX_COLS'', ''#    define MATRIX_COLS 2'', ''#endif // MATRIX_COLS'', '''',
      ''#ifndef MATRIX_ROWS'', ''#    define MATRIX_ROWS 2'', ''#endif // MATRIX_ROWS'', '''',
      ''#ifndef DIRECT_PINS'', ''#    define DIRECT_PINS {{A0,A1},{NO_PIN,B1}}'',
      ''#endif // DIRECT_PINS'', ''''])"
    by (simp add: config_h_def scenario_C_def no_fields_def no_pins_def append_matrix_pins_def
        direct_pins_def str_nat.simps digit_char_def)
qed

theorem direct_pins_defined_witness:
  "kb_matrix_pins scenario_C =
     Some (no_pins\<lparr>mp_direct := Some [[Some ''A0'', Some ''A1''], [Some '''', Some ''B1'']]\<rparr>) \<and>
   mp_direct (no_pins\<lparr>mp_direct := Some [[Some ''A0'', Some ''A1''], [Some '''', Some ''B1'']]\<rparr>) =
     Some ([Some ''A0'', Some ''A1''] # [[Some '''', Some ''B1'']]) \<and>
   (\<exists>pre post. config_h scenario_C = Inr (pre @
      ''#ifndef MATRIX_COLS'' @ nl @
      ''#    define MATRIX_COLS 2'' @ nl @
      ''#endif // MATRIX_COLS'' @ nl @ nl @
      ''#ifndef MATRIX_ROWS'' @ nl @
      ''#    define MATRIX_ROWS 2'' @ nl @
      ''#endif // MATRIX_ROWS'' @ nl @ nl @
      ''#ifndef DIRECT_PINS'' @ nl @
      ''#    define DIRECT_PINS {{A0,A1},{NO_PIN,B1}}'' @ nl @
      ''#endif // DIRECT_PINS'' @
      post))"
proof -
  let ?mp = "no_pins\<lparr>mp_direct := Some [[Some ''A0'', Some ''A1''], [Some '''', Some ''B1'']]\<rparr>"
  have a: "kb_matrix_pins scenario_C = Some ?mp"
    by (simp add: scenario_C_def no_fields_def)
  have b: "mp_direct ?mp = Some ([Some ''A0'', Some ''A1''] # [[Some '''', Some ''B1'']])"
    by simp
  from a b have "kb_matrix_pins scenario_C = Some ?mp \<and>
      mp_direct ?mp = Some ([Some ''A0'', Some ''A1''] # [[Some '''', Some ''B1'']])"
    by (simp only: simp_thms)
  from direct_pins_defined [THEN conjunct1, rule_format, OF this]
  have "\<exists>pre post. config_h scenario_C = Inr (pre @
      ''#ifndef MATRIX_COLS'' @ nl @
      ''#    define MATRIX_COLS 2'' @ nl @
      ''#endif // MATRIX_COLS'' @ nl @ nl @
      ''#ifndef MATRIX_ROWS'' @ nl @
      ''#    define MATRIX_ROWS 2'' @ nl @
      ''#endif // MATRIX_ROWS'' @ nl @ nl @
      ''#ifndef DIRECT_PINS'' @ nl @
      ''#    define DIRECT_PINS {{A0,A1},{NO_PIN,B1}}'' @ nl @
      ''#endif // DIRECT_PINS'' @
      post)"
    by (simp add: macro_guard_def str_nat.simps digit_char_def)
  with a b show ?thesis
    by (simp only: simp_thms)
qed

text \<open>
  C7.  When \<open>matrix_pins.cols\<close> is present and a text is generated, the text holds two
  guarded definitions in a row: \<open>MATRIX_COLS\<close> as the number of column pins and
  \<open>MATRIX_COL_PINS\<close> as their brace-enclosed comma list; likewise \<open>MATRIX_ROWS\<close> and
  \<open>MATRIX_ROW_PINS\<close> for \<open>matrix_pins.rows\<close>.  On scenario B of the specification the whole
  text is as shown.
\<close>

theorem scanned_pins_defined:
  "(kb_matrix_pins kb = Some mp \<and> config_h kb = Inr out \<longrightarrow>
     (\<forall>cs. mp_cols mp = Some cs \<longrightarrow>
        (\<exists>pre post. out = pre @
           macro_guard ''MATRIX_COLS'' (str_nat (length cs)) @ nl @ nl @
           macro_guard ''MATRIX_COL_PINS'' (''{'' @ str_join '','' cs @ ''}'') @
           post)) \<and>
     (\<forall>rs. mp_rows mp = Some rs \<longrightarrow>
        (\<exists>pre post. out = pre @
           macro_guard ''MATRIX_ROWS'' (str_nat (length rs)) @ nl @ nl @
           macro_guard ''MATRIX_ROW_PINS'' (''{'' @ str_join '','' rs @ ''}'') @
           post))) \<and>
   config_h scenario_B = Inr (str_join nl
     [generated_comment, '''', ''#pragma once'', '''',
      ''#ifndef MATRIX_COLS'', ''#    define MATRIX_COLS 2'', ''#endif // MATRIX_COLS'', '''',
      ''#ifndef MATRIX_COL_PINS'', ''#    define MATRIX_COL_PINS {A0,A1}'',
      ''#endif // MATRIX_COL_PINS'', '''', '''',
      ''#ifndef MATRIX_ROWS'', ''#    define MATRIX_ROWS 1'', ''#endif // MATRIX_ROWS'', '''',
      ''#ifndef MATRIX_ROW_PINS'', ''#    define MATRIX_ROW_PINS {B0}'',
      ''#endif // MATRIX_ROW_PINS'', ''''])"
proof (intro conjI impI allI)
  fix cs
  assume "kb_matrix_pins kb = Some mp \<and> config_h kb = Inr out" and cs: "mp_cols mp = Some cs"
  then have mp: "kb_matrix_pins kb = Some mp" and out: "config_h kb = Inr out"
    by simp_all
  let ?hs = "(header_lines @ block kb Diode_direction @ block kb Keyboard_name @
      block kb Manufacturer) @
    (case mp_direct mp of None \<Rightarrow> []
     | Some d \<Rightarrow> (case direct_pins d of Inl e \<Rightarrow> [] | Inr t \<Rightarrow> [t]))"
  let ?ys = "(case mp_rows mp of None \<Rightarrow> [] | Some r \<Rightarrow> [row_pins r]) @
    block kb Vid @ block kb Pid @ block kb Device_ver"
  have "out = str_join nl (?hs @ [col_pins cs] @ ?ys)"
    using config_h_matrix [OF out mp] by (simp only: cs option.case append_assoc)
  moreover have "?hs \<noteq> []"
    by (simp add: header_lines_def)
  ultimately have "\<exists>pre post. out = pre @
      (macro_guard ''MATRIX_COLS'' (str_nat (length cs)) @ nl @ nl @
       macro_guard ''MATRIX_COL_PINS'' (''{'' @ str_join '','' cs @ ''}'')) @ post"
    by (rule block_text_in_output) (simp only: col_pins_text append_assoc)
  then show "\<exists>pre post. out = pre @
      macro_guard ''MATRIX_COLS'' (str_nat (length cs)) @ nl @ nl @
      macro_guard ''MATRIX_COL_PINS'' (''{'' @ str_join '','' cs @ ''}'') @
      post"
    by (simp only: append_assoc)
next
  fix rs
  assume "kb_matrix_pins kb = Some mp \<and> config_h kb = Inr out" and rs: "mp_rows mp = Some rs"
  then have mp: "kb_matrix_pins kb = Some mp" and out: "config_h kb = Inr out"
    by simp_all
  let ?hs = "(header_lines @ block kb Diode_direction @ block kb Keyboard_name @
      block kb Manufacturer) @
    (case mp_direct mp of None \<Rightarrow> []
     | Some d \<Rightarrow> (case direct_pins d of Inl e \<Rightarrow> [] | Inr t \<Rightarrow> [t])) @
    (case mp_cols mp of None \<Rightarrow> [] | Some c \<Rightarrow> [col_pins c])"
  let ?ys = "block kb Vid @ block kb Pid @ block kb Device_ver"
  have "out = str_join nl (?hs @ [row_pins rs] @ ?ys)"
    using config_h_matrix [OF out mp] by (simp only: rs option.case append_assoc)
  moreover have "?hs \<noteq> []"
    by (simp add: header_lines_def)
  ultimately have "\<exists>pre post. out = pre @
      (macro_guard ''MATRIX_ROWS'' (str_nat (length rs)) @ nl @ nl @
       macro_guard ''MATRIX_ROW_PINS'' (''{'' @ str_join '','' rs @ ''}'')) @ post"
    by (rule block_text_in_output) (simp only: row_pins_text append_assoc)
  then show "\<exists>pre post. out = pre @
      macro_guard ''MATRIX_ROWS'' (str_nat (length rs)) @ nl @ nl @
      macro_guard ''MATRIX_ROW_PINS'' (''{'' @ str_join '','' rs @ ''}'') @
      post"
    by (simp only: append_assoc)
next
  show "config_h scenario_B = Inr (str_join nl
     [generated_comment, '''', ''#pragma once'', '''',
      ''#ifndef MATRIX_COLS'', ''#    define MATRIX_COLS 2'', ''#endif // MATRIX_COLS'', '''',
      ''#ifndef MATRIX_COL_PINS'', ''#    define MATRIX_COL_PINS {A0,A1}'',
      ''#endif // MATRIX_COL_PINS'', '''', '''',
      ''#ifndef MATRIX_ROWS'', ''#    define MATRIX_ROWS 1'', ''#endif // MATRIX_ROWS'', '''',
      ''#ifndef MATRIX_ROW_PINS'', ''#    define MATRIX_ROW_PINS {B0}'',
      ''#endif // MATRIX_ROW_PINS'', ''''])"
    by (simp add: config_h_def scenario_B_def no_fields_def no_pins_def append_matrix_pins_def
        col_pins_def row_pins_def str_nat.simps digit_char_def)
qed

theorem scanned_pins_defined_witness:
  "kb_matrix_pins scenario_B =
     Some (no_pins\<lparr>mp_cols := Some [''A0'', ''A1''], mp_rows := Some [''B0'']\<rparr>) \<and>
   mp_cols (no_pins\<lparr>mp_cols := Some [''A0'', ''A1''], mp_rows := Some [''B0'']\<rparr>) =
     Some [''A0'', ''A1''] \<and>
   mp_rows (no_pins\<lparr>mp_cols := Some [''A0'', ''A1''], mp_rows := Some [''B0'']\<rparr>) =
     Some [''B0''] \<and>
   (\<exists>out. config_h scenario_B = Inr out \<and>
      (\<exists>pre post. out = pre @
         ''#ifndef MATRIX_COLS'' @ nl @
         ''#    define MATRIX_COLS 2'' @ nl @
         ''#endif // MATRIX_COLS'' @ nl @ nl @
         ''#ifndef MATRIX_COL_PINS'' @ nl @
         ''#    define MATRIX_COL_PINS {A0,A1}'' @ nl @
         ''#endif // MATRIX_COL_PINS'' @
         post) \<and>
      (\<exists>pre post. out = pre @
         ''#ifndef MATRIX_ROWS'' @ nl @
         ''#    define MATRIX_ROWS 1'' @ nl @
         ''#endif // MATRIX_ROWS'' @ nl @ nl @
         ''#ifndef MATRIX_ROW_PINS'' @ nl @
         ''#    define MATRIX_ROW_PINS {B0}'' @ nl @
         ''#endif // MATRIX_ROW_PINS'' @
         post))"
proof -
  let ?mp = "no_pins\<lparr>mp_cols := Some [''A0'', ''A1''], mp_rows := Some [''B0'']\<rparr>"
  have a: "kb_matrix_pins scenario_B = Some ?mp"
    by (simp add: scenario_B_def no_fields_def)
  have c: "mp_cols ?mp = Some [''A0'', ''A1'']" and r: "mp_rows ?mp = Some [''B0'']"
    by simp_all
  obtain out where out: "config_h scenario_B = Inr out"
    using scanned_pins_defined [THEN conjunct2] by blast
  from a out have h: "kb_matrix_pins scenario_B = Some ?mp \<and> config_h scenario_B = Inr out"
    by (simp only: simp_thms)
  have gc: "macro_guard ''MATRIX_COLS'' (str_nat (length [''A0'', ''A1''])) =
      ''#ifndef MATRIX_COLS'' @ nl @ ''#    define MATRIX_COLS 2'' @ nl @ ''#endif // MATRIX_COLS''"
    and gcp: "macro_guard ''MATRIX_COL_PINS'' (''{'' @ str_join '','' [''A0'', ''A1''] @ ''}'') =
      ''#ifndef MATRIX_COL_PINS'' @ nl @ ''#    define MATRIX_COL_PINS {A0,A1}'' @ nl @
      ''#endif // MATRIX_COL_PINS''"
    and gr: "macro_guard ''MATRIX_ROWS'' (str_nat (length [''B0''])) =
      ''#ifndef MATRIX_ROWS'' @ nl @ ''#    define MATRIX_ROWS 1'' @ nl @ ''#endif // MATRIX_ROWS''"
    and grp: "macro_guard ''MATRIX_ROW_PINS'' (''{'' @ str_join '','' [''B0''] @ ''}'') =
      ''#ifndef MATRIX_ROW_PINS'' @ nl @ ''#    define MATRIX_ROW_PINS {B0}'' @ nl @
      ''#endif // MATRIX_ROW_PINS''"
    by (simp_all add: macro_guard_def str_nat.simps digit_char_def)
  from scanned_pins_defined [THEN conjunct1, rule_format, OF h]
  have cols: "\<exists>pre post. out = pre @
      macro_guard ''MATRIX_COLS'' (str_nat (length [''A0'', ''A1''])) @ nl @ nl @
      macro_guard ''MATRIX_COL_PINS'' (''{'' @ str_join '','' [''A0'', ''A1''] @ ''}'') @ post"
    and rows: "\<exists>pre post. out = pre @
      macro_guard ''MATRIX_ROWS'' (str_nat (length [''B0''])) @ nl @ nl @
      macro_guard ''MATRIX_ROW_PINS'' (''{'' @ str_join '','' [''B0''] @ ''}'') @ post"
    using c r by blast+
  from cols have cols': "\<exists>pre post. out = pre @
         ''#ifndef MATRIX_COLS'' @ nl @
         ''#    define MATRIX_COLS 2'' @ nl @
         ''#endif // MATRIX_COLS'' @ nl @ nl @
         ''#ifndef MATRIX_COL_PINS'' @ nl @
         ''#    define MATRIX_COL_PINS {A0,A1}'' @ nl @
         ''#endif // MATRIX_COL_PINS'' @
         post"
    by (simp only: gc gcp append_assoc)
  from rows have rows': "\<exists>pre post. out = pre @
         ''#ifndef MATRIX_ROWS'' @ nl @
         ''#    define MATRIX_ROWS 1'' @ nl @
         ''#endif // MATRIX_ROWS'' @ nl @ nl @
         ''#ifndef MATRIX_ROW_PINS'' @ nl @
         ''#    define MATRIX_ROW_PINS {B0}'' @ nl @
         ''#endif // MATRIX_ROW_PINS'' @
         post"
    by (simp only: gr grp append_assoc)
  from a c r out cols' rows' show ?thesis
    by blast
qed

text \<open>
  C10.  When \<open>matrix_pins\<close> holds \<open>direct\<close> (with a first row) together with \<open>cols\<close>, the
  generated text holds the guarded \<open>MATRIX_COLS\<close> block twice: first with the count of the
  direct block, later with the count of the cols block.  The same holds for \<open>MATRIX_ROWS\<close>
  when \<open>direct\<close> comes with \<open>rows\<close>.  Both occurrences are emitted whole, each inside its own
  \<open>#ifndef\<close> and \<open>#endif\<close>; nothing removes the second.
\<close>

theorem matrix_counts_emitted_twice:
  assumes "kb_matrix_pins kb = Some mp" and "mp_direct mp = Some (first # rest)"
  shows "(\<forall>cs. mp_cols mp = Some cs \<longrightarrow>
      (\<exists>a b c. config_h kb = Inr (a @
         macro_guard ''MATRIX_COLS'' (str_nat (length first)) @ b @
         macro_guard ''MATRIX_COLS'' (str_nat (length cs)) @ c))) \<and>
    (\<forall>rs. mp_rows mp = Some rs \<longrightarrow>
      (\<exists>a b c. config_h kb = Inr (a @
         macro_guard ''MATRIX_ROWS'' (str_nat (length (first # rest))) @ b @
         macro_guard ''MATRIX_ROWS'' (str_nat (length rs)) @ c)))"
proof (intro conjI allI impI)
  from assms have "\<not> direct_empty kb"
    by (simp add: direct_empty_def)
  then obtain out where out: "config_h kb = Inr out"
    by (auto simp: config_h_returns)
  let ?hs = "header_lines @ block kb Diode_direction @ block kb Keyboard_name @
    block kb Manufacturer"
  have hs: "?hs \<noteq> []"
    by (simp add: header_lines_def)
  obtain x where dc: "direct_pins (first # rest) =
      Inr (nl @ macro_guard ''MATRIX_COLS'' (str_nat (length first)) @ x)"
    using direct_pins_text [of first rest] by simp
  have "direct_pins (first # rest) =
      Inr ((nl @ macro_guard ''MATRIX_COLS'' (str_nat (length first)) @ nl @ nl) @
        macro_guard ''MATRIX_ROWS'' (str_nat (length (first # rest))) @
        (nl @ nl @
         macro_guard ''DIRECT_PINS''
           (''{'' @
            str_join '',''
              (map (\<lambda>row. ''{'' @ str_join '','' (map pin_or_no_pin row) @ ''}'')
                (first # rest)) @
            ''}'') @
         nl))"
    by (simp only: direct_pins_text append_assoc)
  then obtain p y where dr: "direct_pins (first # rest) =
      Inr (p @ macro_guard ''MATRIX_ROWS'' (str_nat (length (first # rest))) @ y)"
    by blast
  {
    fix cs
    assume cs: "mp_cols mp = Some cs"
    let ?D = "nl @ macro_guard ''MATRIX_COLS'' (str_nat (length first)) @ x"
    obtain z where c: "col_pins cs = nl @ macro_guard ''MATRIX_COLS'' (str_nat (length cs)) @ z"
      using col_pins_text [of cs] by simp
    from hs obtain a b c' where
      "str_join nl (?hs @ ?D # [] @ col_pins cs #
         ((case mp_rows mp of None \<Rightarrow> [] | Some r \<Rightarrow> [row_pins r]) @
          block kb Vid @ block kb Pid @ block kb Device_ver)) =
       a @ nl @ ?D @ b @ nl @ col_pins cs @ c'"
      using str_join_two_blocks by blast
    with config_h_matrix [OF out assms(1)] assms(2) cs dc
    have "out = a @ nl @ ?D @ b @ nl @ col_pins cs @ c'"
      by simp
    then have "out = (a @ nl @ nl) @ macro_guard ''MATRIX_COLS'' (str_nat (length first)) @
        (x @ b @ nl @ nl) @ macro_guard ''MATRIX_COLS'' (str_nat (length cs)) @ (z @ c')"
      by (simp add: c)
    with out show "\<exists>a b c. config_h kb = Inr (a @
         macro_guard ''MATRIX_COLS'' (str_nat (length first)) @ b @
         macro_guard ''MATRIX_COLS'' (str_nat (length cs)) @ c)"
      by blast
  }
  {
    fix rs
    assume rs: "mp_rows mp = Some rs"
    let ?D = "p @ macro_guard ''MATRIX_ROWS'' (str_nat (length (first # rest))) @ y"
    obtain z where r: "row_pins rs = nl @ macro_guard ''MATRIX_ROWS'' (str_nat (length rs)) @ z"
      using row_pins_text [of rs] by simp
    from hs obtain a b c' where
      "str_join nl (?hs @ ?D # (case mp_cols mp of None \<Rightarrow> [] | Some c \<Rightarrow> [col_pins c]) @
         row_pins rs # (block kb Vid @ block kb Pid @ block kb Device_ver)) =
       a @ nl @ ?D @ b @ nl @ row_pins rs @ c'"
      using str_join_two_blocks by blast
    with config_h_matrix [OF out assms(1)] assms(2) rs dr
    have "out = a @ nl @ ?D @ b @ nl @ row_pins rs @ c'"
      by simp
    then have "out = (a @ nl @ p) @
        macro_guard ''MATRIX_ROWS'' (str_nat (length (first # rest))) @
        (y @ b @ nl @ nl) @ macro_guard ''MATRIX_ROWS'' (str_nat (length rs)) @ (z @ c')"
      by (simp add: r)
    with out show "\<exists>a b c. config_h kb = Inr (a @
         macro_guard ''MATRIX_ROWS'' (str_nat (length (first # rest))) @ b @
         macro_guard ''MATRIX_ROWS'' (str_nat (length rs)) @ c)"
      by blast
  }
qed

theorem matrix_counts_emitted_twice_witness:
  "kb_matrix_pins direct_and_scanned =
     Some \<lparr>mp_direct = Some [[Some ''A0'', None, Some ''A2'']],
           mp_cols = Some [''B0'', ''B1''],
           mp_rows = Some [''C0'', ''C1'']\<rparr> \<and>
   (\<exists>a b c. config_h direct_and_scanned = Inr (a @
      (''#ifndef MATRIX_COLS'' @ nl @ ''#    define MATRIX_COLS 3'' @ nl @
       ''#endif // MATRIX_COLS'') @ b @
      (''#ifndef MATRIX_COLS'' @ nl @ ''#    define MATRIX_COLS 2'' @ nl @
       ''#endif // MATRIX_COLS'') @ c)) \<and>
   (\<exists>a b c. config_h direct_and_scanned = Inr (a @
      (''#ifndef MATRIX_ROWS'' @ nl @ ''#    define MATRIX_ROWS 1'' @ nl @
       ''#endif // MATRIX_ROWS'') @ b @
      (''#ifndef MATRIX_ROWS'' @ nl @ ''#    define MATRIX_ROWS 2'' @ nl @
       ''#endif // MATRIX_ROWS'') @ c))"
proof -
  let ?mp = "\<lparr>mp_direct = Some [[Some ''A0'', None, Some ''A2'']],
           mp_cols = Some [''B0'', ''B1''],
           mp_rows = Some [''C0'', ''C1'']\<rparr>"
  have a: "kb_matrix_pins direct_and_scanned = Some ?mp"
    by (simp add: direct_and_scanned_def no_fields_def)
  have d: "mp_direct ?mp = Some ([Some ''A0'', None, Some ''A2''] # [])"
    and c: "mp_cols ?mp = Some [''B0'', ''B1'']"
    and r: "mp_rows ?mp = Some [''C0'', ''C1'']"
    by simp_all
  have g: "macro_guard ''MATRIX_COLS'' (str_nat (length [Some ''A0'', None, Some ''A2''])) =
      ''#ifndef MATRIX_COLS'' @ nl @ ''#    define MATRIX_COLS 3'' @ nl @ ''#endif // MATRIX_COLS''"
    "macro_guard ''MATRIX_COLS'' (str_nat (length [''B0'', ''B1''])) =
      ''#ifndef MATRIX_COLS'' @ nl @ ''#    define MATRIX_COLS 2'' @ nl @ ''#endif // MATRIX_COLS''"
    "macro_guard ''MATRIX_ROWS'' (str_nat (length ([Some ''A0'', None, Some ''A2''] # []))) =
      ''#ifndef MATRIX_ROWS'' @ nl @ ''#    define MATRIX_ROWS 1'' @ nl @ ''#endif // MATRIX_ROWS''"
    "macro_guard ''MATRIX_ROWS'' (str_nat (length [''C0'', ''C1''])) =
      ''#ifndef MATRIX_ROWS'' @ nl @ ''#    define MATRIX_ROWS 2'' @ nl @ ''#endif // MATRIX_ROWS''"
    by (simp_all add: macro_guard_def str_nat.simps digit_char_def)
  from matrix_counts_emitted_twice [OF a d] c r
  have "\<exists>a b c. config_h direct_and_scanned = Inr (a @
      macro_guard ''MATRIX_COLS'' (str_nat (length [Some ''A0'', None, Some ''A2''])) @ b @
      macro_guard ''MATRIX_COLS'' (str_nat (length [''B0'', ''B1''])) @ c)"
    and "\<exists>a b c. config_h direct_and_scanned = Inr (a @
      macro_guard ''MATRIX_ROWS'' (str_nat (length ([Some ''A0'', None, Some ''A2''] # []))) @ b @
      macro_guard ''MATRIX_ROWS'' (str_nat (length [''C0'', ''C1''])) @ c)"
    by blast+
  then have "\<exists>a b c. config_h direct_and_scanned = Inr (a @
      (''#ifndef MATRIX_COLS'' @ nl @ ''#    define MATRIX_COLS 3'' @ nl @
       ''#endif // MATRIX_COLS'') @ b @
      (''#ifndef MATRIX_COLS'' @ nl @ ''#    define MATRIX_COLS 2'' @ nl @
       ''#endif // MATRIX_COLS'') @ c)"
    and "\<exists>a b c. config_h direct_and_scanned = Inr (a @
      (''#ifndef MATRIX_ROWS'' @ nl @ ''#    define MATRIX_ROWS 1'' @ nl @
       ''#endif // MATRIX_ROWS'') @ b @
      (''#ifndef MATRIX_ROWS'' @ nl @ ''#    define MATRIX_ROWS 2'' @ nl @
       ''#endif // MATRIX_ROWS'') @ c)"
    by (simp_all only: g)
  with a show ?thesis
    by (simp only: simp_thms)
qed

end
